theory Spec2Isabelle
  imports Complex_Main
begin

section \<open>Data model\<close>

text \<open>
  The optimizer (optimization.py) works on four pandas tables and hands a PuLP
  formulation to a MILP solver. A table is modelled as the list of the names of the
  columns it has, beside its rows in order. The key and coordinate columns that the
  code reads unconditionally are fields of the row records; a row's value for a column
  the table does not have is never read. Numbers are exact reals: rounding, infinities
  and NaN cells are outside the model. The one missing-value test of the source,
  \<open>pd.notna(row['BOM_Component'])\<close>, is modelled by an optional field.
\<close>

datatype error = KeyError | NonScalar | TypeError

record 'r df =
  columns :: "string list"
  rows :: "'r list"

record node_row =
  NodeID :: string
  Type :: string
  Latitude :: real
  Longitude :: real
  FixedCost :: real
  VarCost_per_lb :: real
  Cap_Lbs_Per_Period :: real

record lane_row =
  FromNode :: string
  ToNode :: string
  Cost_per_lb_mi :: real
  DutyRate :: real
  CO2_per_lb_mi :: real
  TransitDays :: real

record prepped_row = lane_row +
  fr_lat :: real
  fr_lon :: real
  to_lat :: real
  to_lon :: real
  Dist_mi :: real

record demand_row =
  CustomerID :: string
  ProductID :: string
  Period :: int
  DemandLbs :: real

record product_row =
  ProductIndex :: string
  BOM_Component :: "string option"
  InputLB_per_OutputLB :: real

section \<open>utils.py\<close>

definition ROAD_FACTOR :: real where
  "ROAD_FACTOR = 1.3"

definition radians :: "real \<Rightarrow> real" where
  "radians x = x * pi / 180"

definition haversine :: "real \<Rightarrow> real \<Rightarrow> real \<Rightarrow> real \<Rightarrow> real" where
  "haversine lon1 lat1 lon2 lat2 =
    (let R = 3958.8;
         lon1 = radians lon1; lat1 = radians lat1;
         lon2 = radians lon2; lat2 = radians lat2;
         dlon = lon2 - lon1;
         dlat = lat2 - lat1;
         a = (sin (dlat / 2))\<^sup>2 + cos lat1 * cos lat2 * (sin (dlon / 2))\<^sup>2
     in 2 * R * arcsin (sqrt a))"

section \<open>Lane preprocessing\<close>

text \<open>
  \<open>_prep_lanes\<close> joins the lane table with the node table twice, once on
  \<open>FromNode\<close> and once on \<open>ToNode\<close>. \<open>DataFrame.merge\<close> is called without
  \<open>how\<close>, so both joins are inner joins: a lane row is paired with every node row of
  that id, and a lane whose id matches no node row yields no row. In which order an
  inner join returns its rows depends on the version of pandas; the model lists them in
  the order of the lane table, and no statement below about the enriched table depends
  on that order. \<open>set_index\<close> is called without \<open>verify_integrity\<close>, so the
  resulting index may repeat a key.
\<close>

definition merge_nodes ::
  "'a list \<Rightarrow> ('a \<Rightarrow> string) \<Rightarrow> node_row list \<Rightarrow> ('a \<times> real \<times> real) list" where
  "merge_nodes left left_on right =
     concat (map (\<lambda>l. map (\<lambda>n. (l, Latitude n, Longitude n))
                          (filter (\<lambda>n. NodeID n = left_on l) right)) left)"

definition enrich :: "(lane_row \<times> real \<times> real) \<times> real \<times> real \<Rightarrow> prepped_row" where
  "enrich x = (case x of ((l, flat, flon), tlat, tlon) \<Rightarrow>
     lane_row.extend l
       (prepped_row.fields flat flon tlat tlon (haversine flon flat tlon tlat * ROAD_FACTOR)))"

definition prep_lanes :: "node_row df \<Rightarrow> lane_row df \<Rightarrow> prepped_row df" where
  "prep_lanes nodes lanes =
    (let m1 = merge_nodes (rows lanes) FromNode (rows nodes);
         m2 = merge_nodes m1 (\<lambda>x. ToNode (fst x)) (rows nodes)
     in \<lparr>columns = columns lanes @ [''fr_lat'', ''fr_lon'', ''to_lat'', ''to_lon'', ''Dist_mi''],
         rows = map enrich m2\<rparr>)"

definition lane_key :: "'a lane_row_scheme \<Rightarrow> string \<times> string" where
  "lane_key r = (FromNode r, ToNode r)"

definition lane_index :: "'a lane_row_scheme df \<Rightarrow> (string \<times> string) list" where
  "lane_index lanes = map lane_key (rows lanes)"

definition node_ids :: "node_row df \<Rightarrow> string list" where
  "node_ids nodes = map NodeID (rows nodes)"

definition endpoints_known :: "node_row df \<Rightarrow> lane_row \<Rightarrow> bool" where
  "endpoints_known nodes l =
     (FromNode l \<in> set (node_ids nodes) \<and> ToNode l \<in> set (node_ids nodes))"

section \<open>The formulation\<close>

text \<open>
  PuLP is an external library; only what \<open>build_model\<close> uses of it is modelled. A
  decision variable is identified by the key under which \<open>LpVariable.dicts\<close> stores
  it. An affine expression is the list of its terms (variable and coefficient) with its
  constant, in the order the code adds them: PuLP's own merging of repeated variables
  does not change the value of an expression. A constraint keeps both sides as they are
  written in the source.
\<close>

datatype var =
    Open string
  | Flow string string string int
  | Make string string int
  | Inv string string int

type_synonym affine = "(var \<times> real) list \<times> real"

definition var_expr :: "var \<Rightarrow> affine" where
  "var_expr v = ([(v, 1)], 0)"

definition num :: "real \<Rightarrow> affine" where
  "num c = ([], c)"

definition times :: "affine \<Rightarrow> real \<Rightarrow> affine" where
  "times e k = (map (\<lambda>(v, x). (v, x * k)) (fst e), snd e * k)"

definition divide_expr :: "affine \<Rightarrow> real \<Rightarrow> affine" where
  "divide_expr e k = (map (\<lambda>(v, x). (v, x / k)) (fst e), snd e / k)"

definition plus_expr :: "affine \<Rightarrow> affine \<Rightarrow> affine" where
  "plus_expr a b = (fst a @ fst b, snd a + snd b)"

definition lpSum :: "affine list \<Rightarrow> affine" where
  "lpSum es = (concat (map fst es), sum_list (map snd es))"

datatype sense = LE | GE | EQ

record constraint =
  lhs :: affine
  sense :: sense
  rhs :: affine

record formulation =
  objective :: affine
  constraints :: "constraint list"

text \<open>The dict of variable dicts that \<open>build_model\<close> returns: the keys of each.\<close>

record variables =
  flow_vars :: "(string \<times> string \<times> string \<times> int) list"
  open_vars :: "string list"
  inv_vars :: "(string \<times> string \<times> int) list"
  make_vars :: "(string \<times> string \<times> int) list"

text \<open>A Python dict keeps one entry for each key, in the order of first insertion.\<close>

fun dict_keys :: "'a list \<Rightarrow> 'a list" where
  "dict_keys [] = []"
| "dict_keys (x # xs) = x # filter (\<lambda>y. y \<noteq> x) (dict_keys xs)"

subsection \<open>Errors\<close>

definition bindE :: "error + 'a \<Rightarrow> ('a \<Rightarrow> error + 'b) \<Rightarrow> error + 'b" where
  "bindE m f = (case m of Inl e \<Rightarrow> Inl e | Inr x \<Rightarrow> f x)"

text \<open>A loop or generator whose body may raise: it stops at the first error.\<close>

fun collect :: "('a \<Rightarrow> error + 'b) \<Rightarrow> 'a list \<Rightarrow> error + 'b list" where
  "collect f [] = Inr []"
| "collect f (x # xs) =
     (case f x of Inl e \<Rightarrow> Inl e
      | Inr y \<Rightarrow> (case collect f xs of Inl e \<Rightarrow> Inl e | Inr ys \<Rightarrow> Inr (y # ys)))"

definition lpSumE :: "('a \<Rightarrow> error + affine) \<Rightarrow> 'a list \<Rightarrow> error + affine" where
  "lpSumE f xs = bindE (collect f xs) (\<lambda>es. Inr (lpSum es))"

subsection \<open>Index sets\<close>

definition nodes_of_type :: "node_row df \<Rightarrow> string \<Rightarrow> string list" where
  "nodes_of_type nodes ty = map NodeID (filter (\<lambda>r. Type r = ty) (rows nodes))"

definition PLT_of :: "node_row df \<Rightarrow> string list" where
  "PLT_of nodes = nodes_of_type nodes ''Plant''"

definition DC_of :: "node_row df \<Rightarrow> string list" where
  "DC_of nodes = nodes_of_type nodes ''DC''"

definition P_of :: "product_row df \<Rightarrow> string list" where
  "P_of products = map ProductIndex (rows products)"

definition T_of :: "demand_row list \<Rightarrow> int list" where
  "T_of demand = sort (remdups (map Period demand))"

definition flow_index ::
  "(string \<times> string) list \<Rightarrow> string list \<Rightarrow> int list \<Rightarrow> (string \<times> string \<times> string \<times> int) list" where
  "flow_index idx P T = concat (map (\<lambda>(i, j). concat (map (\<lambda>p. map (\<lambda>t. (i, j, p, t)) T) P)) idx)"

definition npt_index ::
  "string list \<Rightarrow> string list \<Rightarrow> int list \<Rightarrow> (string \<times> string \<times> int) list" where
  "npt_index ns P T = concat (map (\<lambda>n. concat (map (\<lambda>p. map (\<lambda>t. (n, p, t)) T) P)) ns)"

subsection \<open>Table lookups\<close>

text \<open>
  \<open>nodes.loc[n, col]\<close> and \<open>lanes.loc[(i, j), col]\<close> give a number where the key
  labels one row. Where it labels several they give a Series, which the code then
  multiplies with a variable or tests for truth; both raise, and the model raises
  \<open>NonScalar\<close> at the lookup. A missing column or key is a \<open>KeyError\<close>.
\<close>

definition nodes_loc :: "node_row df \<Rightarrow> string \<Rightarrow> (node_row \<Rightarrow> real) \<Rightarrow> error + real" where
  "nodes_loc nodes n col =
     (case filter (\<lambda>r. NodeID r = n) (rows nodes) of
        [] \<Rightarrow> Inl KeyError
      | [r] \<Rightarrow> Inr (col r)
      | _ \<Rightarrow> Inl NonScalar)"

definition node_fixed :: "node_row df \<Rightarrow> string \<Rightarrow> error + real" where
  "node_fixed nodes n =
     (if ''FixedCost'' \<in> set (columns nodes) then nodes_loc nodes n FixedCost else Inr 0)"

definition node_var :: "node_row df \<Rightarrow> string \<Rightarrow> error + real" where
  "node_var nodes n =
     (if ''VarCost_per_lb'' \<in> set (columns nodes) then nodes_loc nodes n VarCost_per_lb
      else Inr 0)"

definition node_cap :: "node_row df \<Rightarrow> string \<Rightarrow> error + real option" where
  "node_cap nodes n =
     (if ''Cap_Lbs_Per_Period'' \<in> set (columns nodes)
      then bindE (nodes_loc nodes n Cap_Lbs_Per_Period) (\<lambda>c. Inr (Some c))
      else Inr None)"

definition lanes_loc ::
  "prepped_row df \<Rightarrow> string \<times> string \<Rightarrow> string \<Rightarrow> (prepped_row \<Rightarrow> real) \<Rightarrow> error + real" where
  "lanes_loc lanes k cname col =
     (if cname \<notin> set (columns lanes) then Inl KeyError
      else case filter (\<lambda>r. lane_key r = k) (rows lanes) of
             [] \<Rightarrow> Inl KeyError
           | [r] \<Rightarrow> Inr (col r)
           | _ \<Rightarrow> Inl NonScalar)"

text \<open>\<open>lanes.loc[(i, j)].get(col, default)\<close>\<close>

definition lanes_get ::
  "prepped_row df \<Rightarrow> string \<times> string \<Rightarrow> string \<Rightarrow> (prepped_row \<Rightarrow> real) \<Rightarrow> real
     \<Rightarrow> error + real" where
  "lanes_get lanes k cname col dflt =
     (case filter (\<lambda>r. lane_key r = k) (rows lanes) of
        [] \<Rightarrow> Inl KeyError
      | [r] \<Rightarrow> Inr (if cname \<in> set (columns lanes) then col r else dflt)
      | _ \<Rightarrow> (if cname \<in> set (columns lanes) then Inl NonScalar else Inr dflt))"

text \<open>A subscript of the \<open>flow\<close> or \<open>make\<close> dict with a key that may be absent.\<close>

definition flow_get :: "variables \<Rightarrow> string \<times> string \<times> string \<times> int \<Rightarrow> error + affine" where
  "flow_get vs k =
     (if k \<in> set (flow_vars vs)
      then (case k of (i, j, p, t) \<Rightarrow> Inr (var_expr (Flow i j p t)))
      else Inl KeyError)"

definition make_get :: "variables \<Rightarrow> string \<times> string \<times> int \<Rightarrow> error + affine" where
  "make_get vs k =
     (if k \<in> set (make_vars vs)
      then (case k of (pl, p, t) \<Rightarrow> Inr (var_expr (Make pl p t)))
      else Inl KeyError)"

section \<open>build_model\<close>

subsection \<open>Objective\<close>

text \<open>
  The six cost sums, evaluated in the order of the source. In each of them the
  subscripts of \<open>make\<close>, \<open>open_dc\<close>, \<open>inv\<close> and \<open>flow\<close> range over the keys the
  dict was built from, so those subscripts cannot raise and the variable is written
  directly.
\<close>

definition prod_cost ::
  "node_row df \<Rightarrow> string list \<Rightarrow> string list \<Rightarrow> int list \<Rightarrow> error + affine" where
  "prod_cost nodes PLT P T =
     lpSumE (\<lambda>(pl, p, t). bindE (node_var nodes pl) (\<lambda>k. Inr (times (var_expr (Make pl p t)) k)))
       (npt_index PLT P T)"

definition wh_fixed :: "node_row df \<Rightarrow> string list \<Rightarrow> error + affine" where
  "wh_fixed nodes DC =
     lpSumE (\<lambda>d. bindE (node_fixed nodes d) (\<lambda>k. Inr (times (var_expr (Open d)) k))) DC"

definition wh_hold ::
  "node_row df \<Rightarrow> string list \<Rightarrow> string list \<Rightarrow> int list \<Rightarrow> error + affine" where
  "wh_hold nodes ns P T =
     lpSumE (\<lambda>(n, p, t). bindE (node_var nodes n) (\<lambda>k. Inr (times (var_expr (Inv n p t)) k)))
       (npt_index ns P T)"

definition trans_cost ::
  "prepped_row df \<Rightarrow> string list \<Rightarrow> int list \<Rightarrow> error + affine" where
  "trans_cost lanes P T =
     lpSumE (\<lambda>(i, j, p, t).
         bindE (lanes_loc lanes (i, j) ''Cost_per_lb_mi'' Cost_per_lb_mi) (\<lambda>c.
         bindE (lanes_loc lanes (i, j) ''Dist_mi'' Dist_mi) (\<lambda>d.
         Inr (times (times (var_expr (Flow i j p t)) c) d))))
       (flow_index (lane_index lanes) P T)"

definition duty_cost ::
  "prepped_row df \<Rightarrow> string list \<Rightarrow> int list \<Rightarrow> error + affine" where
  "duty_cost lanes P T =
     lpSumE (\<lambda>(i, j, p, t).
         bindE (lanes_get lanes (i, j) ''DutyRate'' DutyRate 0) (\<lambda>r.
         Inr (times (var_expr (Flow i j p t)) r)))
       (flow_index (lane_index lanes) P T)"

definition carbon ::
  "prepped_row df \<Rightarrow> string list \<Rightarrow> int list \<Rightarrow> real \<Rightarrow> error + affine" where
  "carbon lanes P T carbon_price =
     lpSumE (\<lambda>(i, j, p, t).
         bindE (lanes_loc lanes (i, j) ''Dist_mi'' Dist_mi) (\<lambda>d.
         bindE (lanes_get lanes (i, j) ''CO2_per_lb_mi'' CO2_per_lb_mi 0) (\<lambda>c.
         Inr (divide_expr (times (times (times (var_expr (Flow i j p t)) d) c) carbon_price)
                2204.62))))
       (flow_index (lane_index lanes) P T)"

definition objective_expr ::
  "node_row df \<Rightarrow> prepped_row df \<Rightarrow> string list \<Rightarrow> string list \<Rightarrow> string list \<Rightarrow> int list
     \<Rightarrow> real \<Rightarrow> error + affine" where
  "objective_expr nodes lanes PLT DC P T carbon_price =
     bindE (prod_cost nodes PLT P T) (\<lambda>e1.
     bindE (wh_fixed nodes DC) (\<lambda>e2.
     bindE (wh_hold nodes (DC @ PLT) P T) (\<lambda>e3.
     bindE (trans_cost lanes P T) (\<lambda>e4.
     bindE (duty_cost lanes P T) (\<lambda>e5.
     bindE (carbon lanes P T carbon_price) (\<lambda>e6.
     Inr (plus_expr (plus_expr (plus_expr (plus_expr (plus_expr e1 e2) e3) e4) e5) e6)))))))"

subsection \<open>Constraints\<close>

definition fix_zero :: "var \<Rightarrow> constraint" where
  "fix_zero v = \<lparr>lhs = var_expr v, sense = EQ, rhs = num 0\<rparr>"

text \<open>
  \<open>shut_nodes\<close> is a Python set: the loop visits each of its elements once, in an
  order that the language does not fix. The model visits them in list order.
\<close>

definition shutdown_constraints ::
  "string list \<Rightarrow> string list \<Rightarrow> (string \<times> string) list \<Rightarrow> string list \<Rightarrow> int list
     \<Rightarrow> constraint list" where
  "shutdown_constraints shut DC idx P T =
     concat (map (\<lambda>n.
       (if n \<in> set DC then [fix_zero (Open n)] else []) @
       concat (map (\<lambda>(i, j).
         if i = n \<or> j = n
         then concat (map (\<lambda>p. map (\<lambda>t. fix_zero (Flow i j p t)) T) P)
         else []) idx)) shut)"

definition inbound :: "string list \<Rightarrow> (string \<times> string) list \<Rightarrow> string \<Rightarrow> string list" where
  "inbound N idx n = filter (\<lambda>i. (i, n) \<in> set idx) N"

definition outbound :: "string list \<Rightarrow> (string \<times> string) list \<Rightarrow> string \<Rightarrow> string list" where
  "outbound N idx n = filter (\<lambda>j. (n, j) \<in> set idx) N"

definition capacity_constraint ::
  "string list \<Rightarrow> (string \<times> string) list \<Rightarrow> string list \<Rightarrow> string \<Rightarrow> int \<Rightarrow> real
     \<Rightarrow> constraint" where
  "capacity_constraint N idx P n t cap =
     \<lparr>lhs = lpSum (concat (map (\<lambda>i. map (\<lambda>p. var_expr (Flow i n p t)) P) (inbound N idx n))),
      sense = LE, rhs = num cap\<rparr>"

text \<open>
  \<open>if cap:\<close> tests the truth value of the capacity: \<open>None\<close> (no capacity column)
  is false, and so is a capacity of zero.
\<close>

definition capacity_constraints ::
  "node_row df \<Rightarrow> string list \<Rightarrow> string list \<Rightarrow> (string \<times> string) list \<Rightarrow> string list
     \<Rightarrow> int list \<Rightarrow> error + constraint list" where
  "capacity_constraints nodes ns N idx P T =
     bindE (collect (\<lambda>n.
         bindE (node_cap nodes n) (\<lambda>cap.
           case cap of
             None \<Rightarrow> Inr []
           | Some c \<Rightarrow>
               if c \<noteq> 0
               then Inr (map (\<lambda>t. capacity_constraint N idx P n t c) T)
               else Inr [])) ns)
       (\<lambda>cs. Inr (concat cs))"

definition demand_constraints ::
  "variables \<Rightarrow> string list \<Rightarrow> (string \<times> string) list \<Rightarrow> demand_row list
     \<Rightarrow> error + constraint list" where
  "demand_constraints vs N idx demand =
     collect (\<lambda>row.
         let c = CustomerID row; p = ProductID row; t = Period row; dem = DemandLbs row
         in bindE (lpSumE (\<lambda>i. flow_get vs (i, c, p, t)) (inbound N idx c)) (\<lambda>inflow.
            Inr \<lparr>lhs = inflow, sense = GE, rhs = num dem\<rparr>))
       demand"

definition service_constraints ::
  "variables \<Rightarrow> prepped_row df \<Rightarrow> string list \<Rightarrow> demand_row list \<Rightarrow> real
     \<Rightarrow> error + constraint list" where
  "service_constraints vs lanes N demand service_days =
     collect (\<lambda>row.
         let c = CustomerID row; p = ProductID row; t = Period row; dem = DemandLbs row
         in bindE (lpSumE (\<lambda>i.
                bindE (flow_get vs (i, c, p, t)) (\<lambda>f.
                bindE (lanes_loc lanes (i, c) ''TransitDays'' TransitDays) (\<lambda>d.
                Inr (times f d))))
              (inbound N (lane_index lanes) c)) (\<lambda>e.
            Inr \<lparr>lhs = e, sense = LE, rhs = num (dem * service_days)\<rparr>))
       demand"

definition mass_balance ::
  "string list \<Rightarrow> string list \<Rightarrow> (string \<times> string) list \<Rightarrow> string list \<Rightarrow> int list
     \<Rightarrow> string \<Rightarrow> string \<Rightarrow> nat \<Rightarrow> constraint" where
  "mass_balance PLT N idx P T n p ti =
     (let t = T ! ti;
          inflow = lpSum (map (\<lambda>i. var_expr (Flow i n p t)) (inbound N idx n));
          outflow = lpSum (map (\<lambda>j. var_expr (Flow n j p t)) (outbound N idx n));
          outflow = (if n \<in> set PLT then plus_expr outflow (var_expr (Make n p t)) else outflow);
          inv_prev = (if ti > 0 then var_expr (Inv n p (T ! (ti - 1))) else num 0)
      in \<lparr>lhs = plus_expr inflow inv_prev, sense = EQ,
          rhs = plus_expr outflow (var_expr (Inv n p t))\<rparr>)"

definition mass_balance_constraints ::
  "string list \<Rightarrow> string list \<Rightarrow> string list \<Rightarrow> (string \<times> string) list \<Rightarrow> string list
     \<Rightarrow> int list \<Rightarrow> constraint list" where
  "mass_balance_constraints DC PLT N idx P T =
     concat (map (\<lambda>n. concat (map (\<lambda>p.
         map (\<lambda>ti. mass_balance PLT N idx P T n p ti) [0..<length T]) P)) (DC @ PLT))"

definition bom_constraints ::
  "variables \<Rightarrow> product_row df \<Rightarrow> string list \<Rightarrow> int list \<Rightarrow> error + constraint list" where
  "bom_constraints vs products PLT T =
     (if ''BOM_Component'' \<in> set (columns products)
      then bindE (collect (\<lambda>row.
             case BOM_Component row of
               None \<Rightarrow> Inr []
             | Some parent \<Rightarrow>
                 if ''InputLB_per_OutputLB'' \<notin> set (columns products) then Inl KeyError
                 else collect (\<lambda>(pl, t).
                        bindE (make_get vs (pl, parent, t)) (\<lambda>m.
                        Inr \<lparr>lhs = times m (InputLB_per_OutputLB row), sense = GE,
                            rhs = var_expr (Make pl (ProductIndex row) t)\<rparr>))
                      (List.product PLT T))
             (rows products)) (\<lambda>cs. Inr (concat cs))
      else Inr [])"

subsection \<open>The builder\<close>

text \<open>
  \<open>safety_stock_pct\<close> is a parameter of \<open>build_model\<close> that its body never reads.
  The variable bounds (\<open>lowBound=0\<close>, and \<open>Binary\<close> for \<open>Open\<close>) are attributes of
  the variables, not constraints of the model; \<open>in_bounds\<close> states them.
\<close>

definition variable_dicts ::
  "(string \<times> string) list \<Rightarrow> string list \<Rightarrow> string list \<Rightarrow> string list \<Rightarrow> int list
     \<Rightarrow> variables" where
  "variable_dicts idx PLT DC P T =
     \<lparr>flow_vars = dict_keys (flow_index idx P T),
      open_vars = dict_keys DC,
      inv_vars = dict_keys (npt_index (DC @ PLT) P T),
      make_vars = dict_keys (npt_index PLT P T)\<rparr>"

definition build_model ::
  "node_row df \<Rightarrow> demand_row list \<Rightarrow> lane_row df \<Rightarrow> product_row df
     \<Rightarrow> real \<Rightarrow> real \<Rightarrow> real \<Rightarrow> string list \<Rightarrow> error + formulation \<times> variables" where
  "build_model nodes demand lanes products service_days safety_stock_pct carbon_price shut_nodes =
    (let shut_nodes = remdups shut_nodes;
         lanes = prep_lanes nodes lanes;
         N = node_ids nodes;
         PLT = PLT_of nodes;
         DC = DC_of nodes;
         P = P_of products;
         T = T_of demand;
         idx = lane_index lanes;
         vs = variable_dicts idx PLT DC P T
     in bindE (objective_expr nodes lanes PLT DC P T carbon_price) (\<lambda>obj.
        bindE (capacity_constraints nodes (PLT @ DC) N idx P T) (\<lambda>cap.
        bindE (demand_constraints vs N idx demand) (\<lambda>dem.
        bindE (service_constraints vs lanes N demand service_days) (\<lambda>svc.
        bindE (bom_constraints vs products PLT T) (\<lambda>bom.
        Inr (\<lparr>objective = obj,
              constraints = shutdown_constraints shut_nodes DC idx P T @ cap @ dem @ svc
                            @ mass_balance_constraints DC PLT N idx P T @ bom\<rparr>, vs)))))))"

definition in_bounds :: "(var \<Rightarrow> real) \<Rightarrow> var \<Rightarrow> bool" where
  "in_bounds val v = (case v of Open d \<Rightarrow> val v = 0 \<or> val v = 1 | _ \<Rightarrow> 0 \<le> val v)"

subsection \<open>Meaning of a formulation\<close>

definition eval :: "(var \<Rightarrow> real) \<Rightarrow> affine \<Rightarrow> real" where
  "eval val e = sum_list (map (\<lambda>(v, k). k * val v) (fst e)) + snd e"

definition holds :: "(var \<Rightarrow> real) \<Rightarrow> constraint \<Rightarrow> bool" where
  "holds val c =
     (case sense c of
        LE \<Rightarrow> eval val (lhs c) \<le> eval val (rhs c)
      | GE \<Rightarrow> eval val (lhs c) \<ge> eval val (rhs c)
      | EQ \<Rightarrow> eval val (lhs c) = eval val (rhs c))"

definition expr_vars :: "affine \<Rightarrow> var set" where
  "expr_vars e = fst ` set (fst e)"

definition constraint_vars :: "constraint \<Rightarrow> var set" where
  "constraint_vars c = expr_vars (lhs c) \<union> expr_vars (rhs c)"

section \<open>solve_and_extract\<close>

text \<open>
  The MILP solver is an external program. It is a parameter of the model: a function
  from the formulation to the status code and the \<open>varValue\<close> of each variable
  (\<open>None\<close> where the solver set none). \<open>LpStatus\<close> is PuLP's table of status names.
\<close>

datatype lp_status = NotSolved | Optimal | Infeasible | Unbounded | Undefined

fun LpStatus :: "lp_status \<Rightarrow> string" where
  "LpStatus NotSolved = ''Not Solved''"
| "LpStatus Optimal = ''Optimal''"
| "LpStatus Infeasible = ''Infeasible''"
| "LpStatus Unbounded = ''Unbounded''"
| "LpStatus Undefined = ''Undefined''"

type_synonym solution = "var \<Rightarrow> real option"

type_synonym solver = "formulation \<Rightarrow> lp_status \<times> solution"

record flow_record =
  From :: string
  To :: string
  Product :: string
  FlowPeriod :: int
  FlowLbs :: real

record result =
  flow :: "flow_record list"
  open_dc :: "string list"
  objective_value :: "real option"

text \<open>\<open>pulp.value\<close> of an expression: \<open>None\<close> as soon as a variable has no value.\<close>

fun value_terms :: "solution \<Rightarrow> (var \<times> real) list \<Rightarrow> real \<Rightarrow> real option" where
  "value_terms sol [] s = Some s"
| "value_terms sol ((v, x) # ts) s =
     (case sol v of None \<Rightarrow> None | Some y \<Rightarrow> value_terms sol ts (s + y * x))"

definition value_expr :: "solution \<Rightarrow> affine \<Rightarrow> real option" where
  "value_expr sol e = value_terms sol (fst e) (snd e)"

text \<open>
  The flow filter \<open>v.varValue and v.varValue > 1e-6\<close> skips \<open>None\<close> and zero before
  it compares. The filter of the open DCs compares at once, and Python raises a
  \<open>TypeError\<close> on \<open>None > 0.5\<close>.
\<close>

definition flow_rows :: "solution \<Rightarrow> (string \<times> string \<times> string \<times> int) list \<Rightarrow> flow_record list" where
  "flow_rows sol ks =
     concat (map (\<lambda>(i, j, p, t).
       case sol (Flow i j p t) of
         None \<Rightarrow> []
       | Some x \<Rightarrow>
           if x \<noteq> 0 \<and> x > 1 / 10 ^ 6
           then [\<lparr>From = i, To = j, Product = p, FlowPeriod = t, FlowLbs = x\<rparr>]
           else []) ks)"

definition open_rows :: "solution \<Rightarrow> string list \<Rightarrow> error + string list" where
  "open_rows sol ds =
     bindE (collect (\<lambda>d. case sol (Open d) of
                            None \<Rightarrow> Inl TypeError
                          | Some x \<Rightarrow> Inr (if x > 0.5 then [d] else [])) ds)
       (\<lambda>xs. Inr (concat xs))"

definition solve_and_extract ::
  "solver \<Rightarrow> node_row df \<Rightarrow> demand_row list \<Rightarrow> lane_row df \<Rightarrow> product_row df
     \<Rightarrow> real \<Rightarrow> real \<Rightarrow> real \<Rightarrow> string list \<Rightarrow> error + string \<times> result option" where
  "solve_and_extract solver nodes demand lanes products service_days safety_stock_pct
       carbon_price shut_nodes =
     bindE (build_model nodes demand lanes products service_days safety_stock_pct
              carbon_price shut_nodes) (\<lambda>(mdl, var).
       case solver mdl of (st, sol) \<Rightarrow>
         let status = LpStatus st in
         if status \<noteq> ''Optimal'' then Inr (status, None)
         else bindE (open_rows sol (open_vars var)) (\<lambda>ds.
              Inr (''Optimal'',
                   Some \<lparr>flow = flow_rows sol (flow_vars var), open_dc = ds,
                         objective_value = value_expr sol (objective mdl)\<rparr>)))"

text \<open>
  A solver's values satisfy a constraint when every variable of the constraint has a
  value and the constraint holds for these values.
\<close>

definition value_of :: "solution \<Rightarrow> var \<Rightarrow> real" where
  "value_of sol v = (case sol v of None \<Rightarrow> 0 | Some x \<Rightarrow> x)"

definition satisfies :: "solution \<Rightarrow> constraint \<Rightarrow> bool" where
  "satisfies sol c =
     (list_all (\<lambda>(v, k). sol v \<noteq> None) (fst (lhs c) @ fst (rhs c)) \<and> holds (value_of sol) c)"

section \<open>A small network\<close>

text \<open>
  One supplier, one plant, two distribution centers and one customer; five lanes, one
  product, one demand record. The first DC has a capacity of zero.
\<close>

definition ex_nodes :: "node_row df" where
  "ex_nodes = \<lparr>columns = [''FixedCost'', ''VarCost_per_lb'', ''Cap_Lbs_Per_Period''],
     rows = [
      \<lparr>NodeID = ''S1'', Type = ''Supplier'', Latitude = 40, Longitude = -75,
        FixedCost = 0, VarCost_per_lb = 0, Cap_Lbs_Per_Period = 0\<rparr>,
      \<lparr>NodeID = ''P1'', Type = ''Plant'', Latitude = 41, Longitude = -80,
        FixedCost = 0, VarCost_per_lb = 2, Cap_Lbs_Per_Period = 500\<rparr>,
      \<lparr>NodeID = ''D1'', Type = ''DC'', Latitude = 39, Longitude = -85,
        FixedCost = 100, VarCost_per_lb = 1, Cap_Lbs_Per_Period = 0\<rparr>,
      \<lparr>NodeID = ''D2'', Type = ''DC'', Latitude = 38, Longitude = -90,
        FixedCost = 150, VarCost_per_lb = 1, Cap_Lbs_Per_Period = 50\<rparr>,
      \<lparr>NodeID = ''C1'', Type = ''Customer'', Latitude = 37, Longitude = -95,
        FixedCost = 0, VarCost_per_lb = 0, Cap_Lbs_Per_Period = 0\<rparr>]\<rparr>"

definition ex_lane :: "string \<Rightarrow> string \<Rightarrow> lane_row" where
  "ex_lane i j = \<lparr>FromNode = i, ToNode = j, Cost_per_lb_mi = 0.01, DutyRate = 0,
     CO2_per_lb_mi = 0, TransitDays = 2\<rparr>"

definition ex_lanes :: "lane_row df" where
  "ex_lanes = \<lparr>columns = [''Cost_per_lb_mi'', ''DutyRate'', ''CO2_per_lb_mi'', ''TransitDays''],
     rows = [ex_lane ''S1'' ''P1'', ex_lane ''P1'' ''D1'', ex_lane ''P1'' ''D2'',
             ex_lane ''D1'' ''C1'', ex_lane ''D2'' ''C1'']\<rparr>"

definition ex_products :: "product_row df" where
  "ex_products = \<lparr>columns = [],
     rows = [\<lparr>ProductIndex = ''W'', BOM_Component = None, InputLB_per_OutputLB = 0\<rparr>]\<rparr>"

definition ex_demand :: "demand_row list" where
  "ex_demand = [\<lparr>CustomerID = ''C1'', ProductID = ''W'', Period = 1, DemandLbs = 10\<rparr>]"

text \<open>Lane tables with a lane to a node that is not in the node table, and with a repeated lane.\<close>

definition ex_lanes_unknown :: "lane_row df" where
  "ex_lanes_unknown = \<lparr>columns = columns ex_lanes, rows = [ex_lane ''P1'' ''X9'']\<rparr>"

definition ex_lanes_mixed :: "lane_row df" where
  "ex_lanes_mixed = \<lparr>columns = columns ex_lanes,
     rows = [ex_lane ''S1'' ''P1'', ex_lane ''P1'' ''X9'', ex_lane ''D2'' ''C1'']\<rparr>"

definition ex_lanes_dup :: "lane_row df" where
  "ex_lanes_dup = \<lparr>columns = columns ex_lanes, rows = [ex_lane ''P1'' ''D1'', ex_lane ''P1'' ''D1'']\<rparr>"

text \<open>
  Two solvers for the small network: one that reports the network with \<open>D1\<close> shut
  down as solved, all flow going through \<open>D2\<close>, and one that reports infeasibility
  and sets no value.
\<close>

definition ex_values :: solution where
  "ex_values v =
     (case v of
        Open d \<Rightarrow> Some (if d = ''D2'' then 1 else 0)
      | Flow i j p t \<Rightarrow>
          Some (if (i, j) = (''S1'', ''P1'') \<or> (i, j) = (''P1'', ''D2'') \<or> (i, j) = (''D2'', ''C1'')
                then 10 else 0)
      | Make pl p t \<Rightarrow> Some 0
      | Inv n p t \<Rightarrow> Some 0)"

definition ex_solver :: solver where
  "ex_solver mdl = (Optimal, ex_values)"

definition ex_infeasible :: solver where
  "ex_infeasible mdl = (Infeasible, \<lambda>v. None)"

text \<open>
  An assignment for the small network that sends the whole demand through \<open>D1\<close>, the DC
  with a capacity of zero.
\<close>

definition ex_through_D1 :: "var \<Rightarrow> real" where
  "ex_through_D1 v =
     (case v of
        Open d \<Rightarrow> (if d = ''D1'' then 1 else 0)
      | Flow i j p t \<Rightarrow>
          (if (i, j) = (''S1'', ''P1'') \<or> (i, j) = (''P1'', ''D1'') \<or> (i, j) = (''D1'', ''C1'')
           then 10 else 0)
      | Make pl p t \<Rightarrow> 0
      | Inv n p t \<Rightarrow> 0)"





section \<open>Auxiliary facts\<close>

lemmas ex_defs = ex_nodes_def ex_lanes_def ex_lane_def ex_products_def ex_demand_def

lemma bindE_Inl [simp]: "bindE (Inl e) f = Inl e"
  by (simp add: bindE_def)

lemma bindE_Inr [simp]: "bindE (Inr x) f = f x"
  by (simp add: bindE_def)

lemma bindE_eq_Inr: "bindE m f = Inr y \<longleftrightarrow> (\<exists>x. m = Inr x \<and> f x = Inr y)"
  by (cases m) simp_all

lemma bindE_eq_Inl: "bindE m f = Inl e \<longleftrightarrow> m = Inl e \<or> (\<exists>x. m = Inr x \<and> f x = Inl e)"
  by (cases m) simp_all


lemma collect_Cons_Inr:
  "collect f (x # xs) = Inr zs \<longleftrightarrow>
     (\<exists>y ys. f x = Inr y \<and> collect f xs = Inr ys \<and> zs = y # ys)"
  by (auto split: sum.splits)

lemma collect_eq_Inr: "collect f xs = Inr ys \<longleftrightarrow> map f xs = map Inr ys"
proof (induction xs arbitrary: ys)
  case Nil
  then show ?case by auto
next
  case (Cons x xs)
  show ?case
    unfolding collect_Cons_Inr Cons.IH by (cases ys) auto
qed

lemma isl_collect: "isl (collect f xs) \<longleftrightarrow> (\<exists>x\<in>set xs. isl (f x))"
  by (induction xs) (auto split: sum.splits)

lemma collect_total:
  assumes "\<And>x. x \<in> set xs \<Longrightarrow> \<exists>y. f x = Inr y"
  shows "\<exists>ys. collect f xs = Inr ys"
proof (cases "collect f xs")
  case (Inl e)
  then have "isl (collect f xs)" by simp
  then obtain x where "x \<in> set xs" "isl (f x)" unfolding isl_collect by blast
  with assms show ?thesis by force
next
  case (Inr ys)
  then show ?thesis by blast
qed

lemma collect_Inr_set:
  assumes "collect f xs = Inr ys"
  shows "set ys = {y. \<exists>x\<in>set xs. f x = Inr y}"
proof -
  have "map f xs = map Inr ys" using assms by (simp add: collect_eq_Inr)
  then have "f ` set xs = Inr ` set ys" by (metis set_map)
  then show ?thesis by (auto simp: image_iff) (metis image_iff sum.inject(2))+
qed

subsection \<open>The two joins of the lane table\<close>

lemma merge_nodes_fst:
  "map fst (merge_nodes left left_on right) =
     concat (map (\<lambda>l. replicate (length (filter (\<lambda>n. NodeID n = left_on l) right)) l) left)"
  unfolding merge_nodes_def
  by (induction left) (simp_all add: comp_def map_replicate_const)

lemma filter_distinct_key:
  "distinct (map f xs) \<Longrightarrow>
     length (filter (\<lambda>n. f n = k) xs) = (if k \<in> set (map f xs) then 1 else 0)"
  by (induction xs) auto

lemma merge_nodes_fst_distinct:
  assumes "distinct (map NodeID right)"
  shows "map fst (merge_nodes left left_on right) =
     filter (\<lambda>l. left_on l \<in> set (map NodeID right)) left"
  unfolding merge_nodes_fst
  by (induction left) (simp_all add: filter_distinct_key[OF assms])

lemma set_merge_nodes_fst:
  "set (map fst (merge_nodes left left_on right)) =
     {l \<in> set left. left_on l \<in> set (map NodeID right)}"
  unfolding merge_nodes_def by (auto simp: image_iff) metis

lemma truncate_enrich: "lane_row.truncate (enrich x) = fst (fst x)"
  by (cases x) (auto simp: enrich_def lane_row.truncate_def lane_row.extend_def split: prod.splits)

lemma lane_key_enrich: "lane_key (enrich x) = lane_key (fst (fst x))"
  by (cases x) (auto simp: enrich_def lane_key_def lane_row.extend_def split: prod.splits)

lemma enrich_fields:
  "FromNode (enrich ((l, a, b), c, d)) = FromNode l"
  "ToNode (enrich ((l, a, b), c, d)) = ToNode l"
  "Cost_per_lb_mi (enrich ((l, a, b), c, d)) = Cost_per_lb_mi l"
  "DutyRate (enrich ((l, a, b), c, d)) = DutyRate l"
  "CO2_per_lb_mi (enrich ((l, a, b), c, d)) = CO2_per_lb_mi l"
  "TransitDays (enrich ((l, a, b), c, d)) = TransitDays l"
  "Dist_mi (enrich ((l, a, b), c, d)) = haversine b a d c * ROAD_FACTOR"
  by (simp_all add: enrich_def lane_row.extend_def prepped_row.fields_def)

lemma prep_lanes_truncate:
  "map lane_row.truncate (rows (prep_lanes nodes lanes)) =
     map fst (map fst (merge_nodes (merge_nodes (rows lanes) FromNode (rows nodes))
         (\<lambda>x. ToNode (fst x)) (rows nodes)))"
  by (simp add: prep_lanes_def Let_def truncate_enrich comp_def)

lemma prep_lanes_rows_distinct:
  assumes "distinct (node_ids nodes)"
  shows "map lane_row.truncate (rows (prep_lanes nodes lanes)) =
           filter (endpoints_known nodes) (rows lanes)"
proof -
  have d: "distinct (map NodeID (rows nodes))" using assms by (simp add: node_ids_def)
  have "map fst (map fst (merge_nodes (merge_nodes (rows lanes) FromNode (rows nodes))
         (\<lambda>x. ToNode (fst x)) (rows nodes)))
      = map fst (filter (\<lambda>x. ToNode (fst x) \<in> set (map NodeID (rows nodes)))
           (merge_nodes (rows lanes) FromNode (rows nodes)))"
    by (simp only: merge_nodes_fst_distinct[OF d])
  also have "\<dots> = filter (\<lambda>l. ToNode l \<in> set (map NodeID (rows nodes)))
           (map fst (merge_nodes (rows lanes) FromNode (rows nodes)))"
    by (simp add: filter_map comp_def)
  also have "\<dots> = filter (endpoints_known nodes) (rows lanes)"
    by (simp only: merge_nodes_fst_distinct[OF d])
       (auto simp: endpoints_known_def node_ids_def intro: filter_cong)
  finally show ?thesis by (simp only: prep_lanes_truncate)
qed

lemma prep_lanes_rows_set:
  "set (map lane_row.truncate (rows (prep_lanes nodes lanes))) =
     {l \<in> set (rows lanes). endpoints_known nodes l}"
proof -
  have "set (map fst (map fst (merge_nodes (merge_nodes (rows lanes) FromNode (rows nodes))
         (\<lambda>x. ToNode (fst x)) (rows nodes))))
     = fst ` {x \<in> set (merge_nodes (rows lanes) FromNode (rows nodes)).
                ToNode (fst x) \<in> set (map NodeID (rows nodes))}"
    using set_merge_nodes_fst[of "merge_nodes (rows lanes) FromNode (rows nodes)"
            "\<lambda>x. ToNode (fst x)" "rows nodes"]
    by (simp only: set_map)
  also have "\<dots> = {l \<in> set (map fst (merge_nodes (rows lanes) FromNode (rows nodes))).
                ToNode l \<in> set (map NodeID (rows nodes))}"
    by (auto simp: image_iff)
  also have "\<dots> = {l \<in> set (rows lanes). endpoints_known nodes l}"
    by (simp only: set_merge_nodes_fst) (auto simp: endpoints_known_def node_ids_def)
  finally show ?thesis by (simp only: prep_lanes_truncate)
qed

lemma lane_key_truncate: "lane_key (lane_row.truncate r) = lane_key r"
  by (simp add: lane_key_def lane_row.truncate_def)

lemma lane_index_prep:
  "lane_index (prep_lanes nodes lanes) =
     map lane_key (map lane_row.truncate (rows (prep_lanes nodes lanes)))"
  by (simp add: lane_index_def lane_key_truncate comp_def)

lemma ex_node_ids: "node_ids ex_nodes = [''S1'', ''P1'', ''D1'', ''D2'', ''C1'']"
  by (simp add: ex_defs node_ids_def)

lemma ex_unknown_rows: "rows (prep_lanes ex_nodes ex_lanes_unknown) = []"
  by (simp add: ex_defs ex_lanes_unknown_def prep_lanes_def merge_nodes_def)

lemma ex_dup_index:
  "lane_index (prep_lanes ex_nodes ex_lanes_dup) = [(''P1'', ''D1''), (''P1'', ''D1'')]"
  by (simp add: ex_defs ex_lanes_dup_def lane_index_def prep_lanes_def merge_nodes_def
        enrich_fields lane_key_def)

subsection \<open>When the builder succeeds\<close>

lemma filter_key_single:
  assumes "distinct (map f xs)" "k \<in> set (map f xs)"
  shows "\<exists>r. filter (\<lambda>x. f x = k) xs = [r]"
proof -
  have "length (filter (\<lambda>x. f x = k) xs) = 1"
    using filter_distinct_key[OF assms(1), of k] assms(2) by simp
  then show ?thesis by (cases "filter (\<lambda>x. f x = k) xs") auto
qed

lemma nodes_loc_ok:
  assumes "distinct (node_ids nodes)" "n \<in> set (node_ids nodes)"
  shows "\<exists>x. nodes_loc nodes n col = Inr x"
proof -
  obtain r where "filter (\<lambda>r. NodeID r = n) (rows nodes) = [r]"
    using filter_key_single[of NodeID "rows nodes" n] assms by (auto simp: node_ids_def)
  then show ?thesis by (simp add: nodes_loc_def)
qed

lemma node_var_ok:
  "distinct (node_ids nodes) \<Longrightarrow> n \<in> set (node_ids nodes) \<Longrightarrow> \<exists>x. node_var nodes n = Inr x"
  using nodes_loc_ok[of nodes n VarCost_per_lb] by (simp add: node_var_def)

lemma node_fixed_ok:
  "distinct (node_ids nodes) \<Longrightarrow> n \<in> set (node_ids nodes) \<Longrightarrow> \<exists>x. node_fixed nodes n = Inr x"
  using nodes_loc_ok[of nodes n FixedCost] by (simp add: node_fixed_def)

lemma node_cap_ok:
  "distinct (node_ids nodes) \<Longrightarrow> n \<in> set (node_ids nodes) \<Longrightarrow> \<exists>x. node_cap nodes n = Inr x"
  using nodes_loc_ok[of nodes n Cap_Lbs_Per_Period] by (auto simp: node_cap_def)

lemma lanes_loc_ok:
  assumes "distinct (lane_index lanes)" "k \<in> set (lane_index lanes)" "c \<in> set (columns lanes)"
  shows "\<exists>x. lanes_loc lanes k c col = Inr x"
proof -
  obtain r where "filter (\<lambda>r. lane_key r = k) (rows lanes) = [r]"
    using filter_key_single[of lane_key "rows lanes" k] assms by (auto simp: lane_index_def)
  then show ?thesis using assms(3) by (simp add: lanes_loc_def)
qed

lemma lanes_get_ok:
  assumes "distinct (lane_index lanes)" "k \<in> set (lane_index lanes)"
  shows "\<exists>x. lanes_get lanes k c col dflt = Inr x"
proof -
  obtain r where "filter (\<lambda>r. lane_key r = k) (rows lanes) = [r]"
    using filter_key_single[of lane_key "rows lanes" k] assms by (auto simp: lane_index_def)
  then show ?thesis by (simp add: lanes_get_def)
qed

lemma lpSumE_ok:
  assumes "\<And>x. x \<in> set xs \<Longrightarrow> \<exists>y. f x = Inr y"
  shows "\<exists>e. lpSumE f xs = Inr e"
  using collect_total[of xs f] assms by (auto simp: lpSumE_def)

lemma set_npt_index: "set (npt_index ns P T) = {(n, p, t). n \<in> set ns \<and> p \<in> set P \<and> t \<in> set T}"
  by (auto simp: npt_index_def)

lemma set_flow_index:
  "set (flow_index idx P T) = {(i, j, p, t). (i, j) \<in> set idx \<and> p \<in> set P \<and> t \<in> set T}"
proof (intro set_eqI iffI)
  fix x assume "x \<in> set (flow_index idx P T)"
  then show "x \<in> {(i, j, p, t). (i, j) \<in> set idx \<and> p \<in> set P \<and> t \<in> set T}"
    unfolding flow_index_def by auto
next
  fix x assume "x \<in> {(i, j, p, t). (i, j) \<in> set idx \<and> p \<in> set P \<and> t \<in> set T}"
  then obtain i j p t where x: "x = (i, j, p, t)" "(i, j) \<in> set idx" "p \<in> set P" "t \<in> set T"
    by auto
  have "(i, j, p, t) \<in> set (concat (map (\<lambda>p. map (\<lambda>t. (i, j, p, t)) T) P))"
    using x(3,4) by auto
  then show "x \<in> set (flow_index idx P T)"
    unfolding flow_index_def x(1) using x(2) by (auto intro!: bexI[of _ "(i, j)"])
qed

lemma set_dict_keys [simp]: "set (dict_keys xs) = set xs"
  by (induction xs) auto

lemma distinct_dict_keys: "distinct (dict_keys xs)"
  by (induction xs) auto

lemma nodes_of_type_subset: "set (nodes_of_type nodes ty) \<subseteq> set (node_ids nodes)"
  by (auto simp: nodes_of_type_def node_ids_def)

lemma prep_columns: "c \<in> set (columns lanes) \<Longrightarrow> c \<in> set (columns (prep_lanes nodes lanes))"
  "''Dist_mi'' \<in> set (columns (prep_lanes nodes lanes))"
  by (simp_all add: prep_lanes_def Let_def)

lemma prod_cost_ok:
  assumes "\<And>n. n \<in> set PLT \<Longrightarrow> \<exists>x. node_var nodes n = Inr x"
  shows "\<exists>e. prod_cost nodes PLT P T = Inr e"
  unfolding prod_cost_def
proof (rule lpSumE_ok)
  fix x assume "x \<in> set (npt_index PLT P T)"
  then obtain pl p t where x: "x = (pl, p, t)" "pl \<in> set PLT" by (auto simp: set_npt_index)
  from assms[OF x(2)] obtain k where "node_var nodes pl = Inr k" by blast
  then show "\<exists>y. (case x of (pl, p, t) \<Rightarrow>
      bindE (node_var nodes pl) (\<lambda>k. Inr (times (var_expr (Make pl p t)) k))) = Inr y"
    by (simp add: x(1))
qed

lemma wh_fixed_ok:
  assumes "\<And>n. n \<in> set DC \<Longrightarrow> \<exists>x. node_fixed nodes n = Inr x"
  shows "\<exists>e. wh_fixed nodes DC = Inr e"
  unfolding wh_fixed_def
proof (rule lpSumE_ok)
  fix d assume "d \<in> set DC"
  from assms[OF this] obtain k where "node_fixed nodes d = Inr k" by blast
  then show "\<exists>y. bindE (node_fixed nodes d) (\<lambda>k. Inr (times (var_expr (Open d)) k)) = Inr y"
    by simp
qed

lemma wh_hold_ok:
  assumes "\<And>n. n \<in> set ns \<Longrightarrow> \<exists>x. node_var nodes n = Inr x"
  shows "\<exists>e. wh_hold nodes ns P T = Inr e"
  unfolding wh_hold_def
proof (rule lpSumE_ok)
  fix x assume "x \<in> set (npt_index ns P T)"
  then obtain n p t where x: "x = (n, p, t)" "n \<in> set ns" by (auto simp: set_npt_index)
  from assms[OF x(2)] obtain k where "node_var nodes n = Inr k" by blast
  then show "\<exists>y. (case x of (n, p, t) \<Rightarrow>
      bindE (node_var nodes n) (\<lambda>k. Inr (times (var_expr (Inv n p t)) k))) = Inr y"
    by (simp add: x(1))
qed

lemma trans_cost_ok:
  assumes "distinct (lane_index lanes)"
    "''Cost_per_lb_mi'' \<in> set (columns lanes)" "''Dist_mi'' \<in> set (columns lanes)"
  shows "\<exists>e. trans_cost lanes P T = Inr e"
  unfolding trans_cost_def
proof (rule lpSumE_ok)
  fix x assume "x \<in> set (flow_index (lane_index lanes) P T)"
  then obtain i j p t where x: "x = (i, j, p, t)" "(i, j) \<in> set (lane_index lanes)"
    by (auto simp: set_flow_index)
  obtain c where c: "lanes_loc lanes (i, j) ''Cost_per_lb_mi'' Cost_per_lb_mi = Inr c"
    using lanes_loc_ok[OF assms(1) x(2) assms(2)] by blast
  obtain d where d: "lanes_loc lanes (i, j) ''Dist_mi'' Dist_mi = Inr d"
    using lanes_loc_ok[OF assms(1) x(2) assms(3)] by blast
  show "\<exists>y. (case x of (i, j, p, t) \<Rightarrow>
         bindE (lanes_loc lanes (i, j) ''Cost_per_lb_mi'' Cost_per_lb_mi) (\<lambda>c.
         bindE (lanes_loc lanes (i, j) ''Dist_mi'' Dist_mi) (\<lambda>d.
         Inr (times (times (var_expr (Flow i j p t)) c) d)))) = Inr y"
    by (simp add: x(1) c d)
qed

lemma duty_cost_ok:
  assumes "distinct (lane_index lanes)"
  shows "\<exists>e. duty_cost lanes P T = Inr e"
  unfolding duty_cost_def
proof (rule lpSumE_ok)
  fix x assume "x \<in> set (flow_index (lane_index lanes) P T)"
  then obtain i j p t where x: "x = (i, j, p, t)" "(i, j) \<in> set (lane_index lanes)"
    by (auto simp: set_flow_index)
  obtain r where r: "lanes_get lanes (i, j) ''DutyRate'' DutyRate 0 = Inr r"
    using lanes_get_ok[OF assms(1) x(2)] by blast
  show "\<exists>y. (case x of (i, j, p, t) \<Rightarrow>
         bindE (lanes_get lanes (i, j) ''DutyRate'' DutyRate 0) (\<lambda>r.
         Inr (times (var_expr (Flow i j p t)) r))) = Inr y"
    by (simp add: x(1) r)
qed

lemma carbon_ok:
  assumes "distinct (lane_index lanes)" "''Dist_mi'' \<in> set (columns lanes)"
  shows "\<exists>e. carbon lanes P T cp = Inr e"
  unfolding carbon_def
proof (rule lpSumE_ok)
  fix x assume "x \<in> set (flow_index (lane_index lanes) P T)"
  then obtain i j p t where x: "x = (i, j, p, t)" "(i, j) \<in> set (lane_index lanes)"
    by (auto simp: set_flow_index)
  obtain d where d: "lanes_loc lanes (i, j) ''Dist_mi'' Dist_mi = Inr d"
    using lanes_loc_ok[OF assms(1) x(2) assms(2)] by blast
  obtain c where c: "lanes_get lanes (i, j) ''CO2_per_lb_mi'' CO2_per_lb_mi 0 = Inr c"
    using lanes_get_ok[OF assms(1) x(2)] by blast
  show "\<exists>y. (case x of (i, j, p, t) \<Rightarrow>
         bindE (lanes_loc lanes (i, j) ''Dist_mi'' Dist_mi) (\<lambda>d.
         bindE (lanes_get lanes (i, j) ''CO2_per_lb_mi'' CO2_per_lb_mi 0) (\<lambda>c.
         Inr (divide_expr (times (times (times (var_expr (Flow i j p t)) d) c) cp)
                2204.62)))) = Inr y"
    by (simp add: x(1) c d)
qed

lemma objective_expr_ok:
  assumes "distinct (node_ids nodes)" "distinct (lane_index lanes)"
    "''Cost_per_lb_mi'' \<in> set (columns lanes)" "''Dist_mi'' \<in> set (columns lanes)"
    "set PLT \<subseteq> set (node_ids nodes)" "set DC \<subseteq> set (node_ids nodes)"
  shows "\<exists>obj. objective_expr nodes lanes PLT DC P T cp = Inr obj"
proof -
  have nv: "\<exists>x. node_var nodes n = Inr x" if "n \<in> set (DC @ PLT)" for n
    using node_var_ok[OF assms(1), of n] that assms(5,6) by auto
  have nf: "\<exists>x. node_fixed nodes n = Inr x" if "n \<in> set DC" for n
    using node_fixed_ok[OF assms(1), of n] that assms(6) by auto
  obtain e1 where 1: "prod_cost nodes PLT P T = Inr e1"
    using prod_cost_ok[of PLT nodes P T] nv by auto
  obtain e2 where 2: "wh_fixed nodes DC = Inr e2"
    using wh_fixed_ok[of DC nodes] nf by auto
  obtain e3 where 3: "wh_hold nodes (DC @ PLT) P T = Inr e3"
    using wh_hold_ok[of "DC @ PLT" nodes P T] nv by blast
  obtain e4 where 4: "trans_cost lanes P T = Inr e4"
    using trans_cost_ok[OF assms(2,3,4)] by blast
  obtain e5 where 5: "duty_cost lanes P T = Inr e5"
    using duty_cost_ok[OF assms(2)] by blast
  obtain e6 where 6: "carbon lanes P T cp = Inr e6"
    using carbon_ok[OF assms(2,4)] by blast
  show ?thesis by (simp add: objective_expr_def 1 2 3 4 5 6)
qed

lemma build_model_Inr:
  assumes "build_model nodes demand lanes products sd ssp cp shut = Inr (mdl, vs)"
  obtains obj cap dem svc bom where
    "objective_expr nodes (prep_lanes nodes lanes) (PLT_of nodes) (DC_of nodes)
       (P_of products) (T_of demand) cp = Inr obj"
    "capacity_constraints nodes (PLT_of nodes @ DC_of nodes) (node_ids nodes)
       (lane_index (prep_lanes nodes lanes)) (P_of products) (T_of demand) = Inr cap"
    "demand_constraints vs (node_ids nodes) (lane_index (prep_lanes nodes lanes)) demand = Inr dem"
    "service_constraints vs (prep_lanes nodes lanes) (node_ids nodes) demand sd = Inr svc"
    "bom_constraints vs products (PLT_of nodes) (T_of demand) = Inr bom"
    "vs = variable_dicts (lane_index (prep_lanes nodes lanes)) (PLT_of nodes) (DC_of nodes)
            (P_of products) (T_of demand)"
    "objective mdl = obj"
    "constraints mdl =
       shutdown_constraints (remdups shut) (DC_of nodes) (lane_index (prep_lanes nodes lanes))
         (P_of products) (T_of demand) @ cap @ dem @ svc @
       mass_balance_constraints (DC_of nodes) (PLT_of nodes) (node_ids nodes)
         (lane_index (prep_lanes nodes lanes)) (P_of products) (T_of demand) @ bom"
proof -
  define vs' where "vs' = variable_dicts (lane_index (prep_lanes nodes lanes)) (PLT_of nodes)
     (DC_of nodes) (P_of products) (T_of demand)"
  note a = assms[unfolded build_model_def Let_def, folded vs'_def]
  from a obtain obj where 1: "objective_expr nodes (prep_lanes nodes lanes) (PLT_of nodes)
       (DC_of nodes) (P_of products) (T_of demand) cp = Inr obj"
    by (cases "objective_expr nodes (prep_lanes nodes lanes) (PLT_of nodes) (DC_of nodes)
       (P_of products) (T_of demand) cp") simp_all
  note a = a[unfolded 1 bindE_Inr]
  from a obtain cap where 2: "capacity_constraints nodes (PLT_of nodes @ DC_of nodes)
       (node_ids nodes) (lane_index (prep_lanes nodes lanes)) (P_of products) (T_of demand)
       = Inr cap"
    by (cases "capacity_constraints nodes (PLT_of nodes @ DC_of nodes) (node_ids nodes)
       (lane_index (prep_lanes nodes lanes)) (P_of products) (T_of demand)") simp_all
  note a = a[unfolded 2 bindE_Inr]
  from a obtain dem where 3: "demand_constraints vs' (node_ids nodes)
       (lane_index (prep_lanes nodes lanes)) demand = Inr dem"
    by (cases "demand_constraints vs' (node_ids nodes) (lane_index (prep_lanes nodes lanes))
       demand") simp_all
  note a = a[unfolded 3 bindE_Inr]
  from a obtain svc where 4: "service_constraints vs' (prep_lanes nodes lanes) (node_ids nodes)
       demand sd = Inr svc"
    by (cases "service_constraints vs' (prep_lanes nodes lanes) (node_ids nodes) demand sd")
       simp_all
  note a = a[unfolded 4 bindE_Inr]
  from a obtain bom where 5: "bom_constraints vs' products (PLT_of nodes) (T_of demand) = Inr bom"
    by (cases "bom_constraints vs' products (PLT_of nodes) (T_of demand)") simp_all
  note a = a[unfolded 5 bindE_Inr]
  from a have v: "vs = vs'" and m: "mdl = \<lparr>objective = obj,
       constraints = shutdown_constraints (remdups shut) (DC_of nodes)
         (lane_index (prep_lanes nodes lanes)) (P_of products) (T_of demand) @ cap @ dem @ svc @
       mass_balance_constraints (DC_of nodes) (PLT_of nodes) (node_ids nodes)
         (lane_index (prep_lanes nodes lanes)) (P_of products) (T_of demand) @ bom\<rparr>"
    by simp_all
  show thesis
    by (rule that[OF 1 2 3[folded v] 4[folded v] 5[folded v]]) (simp_all add: v vs'_def m)
qed

subsection \<open>The formulation of the small network\<close>

lemma ex_lane_fields:
  "FromNode (ex_lane i j) = i" "ToNode (ex_lane i j) = j"
  "Cost_per_lb_mi (ex_lane i j) = 0.01" "DutyRate (ex_lane i j) = 0"
  "CO2_per_lb_mi (ex_lane i j) = 0" "TransitDays (ex_lane i j) = 2"
  by (simp_all add: ex_lane_def)

lemma ex_rows: "rows (prep_lanes ex_nodes ex_lanes) =
   [enrich ((ex_lane ''S1'' ''P1'', 40, -75), 41, -80),
    enrich ((ex_lane ''P1'' ''D1'', 41, -80), 39, -85),
    enrich ((ex_lane ''P1'' ''D2'', 41, -80), 38, -90),
    enrich ((ex_lane ''D1'' ''C1'', 39, -85), 37, -95),
    enrich ((ex_lane ''D2'' ''C1'', 38, -90), 37, -95)]"
  by (simp add: ex_nodes_def ex_lanes_def prep_lanes_def merge_nodes_def ex_lane_fields)

lemma ex_index: "lane_index (prep_lanes ex_nodes ex_lanes) =
   [(''S1'', ''P1''), (''P1'', ''D1''), (''P1'', ''D2''), (''D1'', ''C1''), (''D2'', ''C1'')]"
  by (simp add: lane_index_def ex_rows lane_key_def enrich_fields ex_lane_fields)

lemma ex_columns: "columns (prep_lanes ex_nodes ex_lanes) =
   [''Cost_per_lb_mi'', ''DutyRate'', ''CO2_per_lb_mi'', ''TransitDays'',
    ''fr_lat'', ''fr_lon'', ''to_lat'', ''to_lon'', ''Dist_mi'']"
  by (simp add: ex_lanes_def prep_lanes_def Let_def)

lemma ex_sets:
  "PLT_of ex_nodes = [''P1'']" "DC_of ex_nodes = [''D1'', ''D2'']"
  "P_of ex_products = [''W'']" "T_of ex_demand = [1]"
  by (simp_all add: ex_defs PLT_of_def DC_of_def nodes_of_type_def P_of_def T_of_def)

lemma ex_node_cap:
  "node_cap ex_nodes ''P1'' = Inr (Some 500)"
  "node_cap ex_nodes ''D1'' = Inr (Some 0)"
  "node_cap ex_nodes ''D2'' = Inr (Some 50)"
  by (simp_all add: node_cap_def nodes_loc_def ex_nodes_def)

lemma ex_inbound:
  "inbound [''S1'', ''P1'', ''D1'', ''D2'', ''C1'']
     [(''S1'', ''P1''), (''P1'', ''D1''), (''P1'', ''D2''), (''D1'', ''C1''), (''D2'', ''C1'')] n =
   (if n = ''P1'' then [''S1''] else if n = ''D1'' then [''P1''] else if n = ''D2'' then [''P1'']
    else if n = ''C1'' then [''D1'', ''D2''] else [])"
  by (simp add: inbound_def)

lemma ex_outbound:
  "outbound [''S1'', ''P1'', ''D1'', ''D2'', ''C1'']
     [(''S1'', ''P1''), (''P1'', ''D1''), (''P1'', ''D2''), (''D1'', ''C1''), (''D2'', ''C1'')] n =
   (if n = ''S1'' then [''P1''] else if n = ''P1'' then [''D1'', ''D2'']
    else if n = ''D1'' then [''C1''] else if n = ''D2'' then [''C1''] else [])"
  by (simp add: outbound_def)

lemma ex_capacity:
  "capacity_constraints ex_nodes [''P1'', ''D1'', ''D2''] [''S1'', ''P1'', ''D1'', ''D2'', ''C1'']
     [(''S1'', ''P1''), (''P1'', ''D1''), (''P1'', ''D2''), (''D1'', ''C1''), (''D2'', ''C1'')]
     [''W''] [1] =
   Inr [\<lparr>lhs = lpSum [var_expr (Flow ''S1'' ''P1'' ''W'' 1)], sense = LE, rhs = num 500\<rparr>,
        \<lparr>lhs = lpSum [var_expr (Flow ''P1'' ''D2'' ''W'' 1)], sense = LE, rhs = num 50\<rparr>]"
  by (simp add: capacity_constraints_def capacity_constraint_def ex_node_cap ex_inbound)


lemma ex_vars:
  "variable_dicts
     [(''S1'', ''P1''), (''P1'', ''D1''), (''P1'', ''D2''), (''D1'', ''C1''), (''D2'', ''C1'')]
     [''P1''] [''D1'', ''D2''] [''W''] [1] =
   \<lparr>flow_vars = [(''S1'', ''P1'', ''W'', 1), (''P1'', ''D1'', ''W'', 1), (''P1'', ''D2'', ''W'', 1),
                  (''D1'', ''C1'', ''W'', 1), (''D2'', ''C1'', ''W'', 1)],
     open_vars = [''D1'', ''D2''],
     inv_vars = [(''D1'', ''W'', 1), (''D2'', ''W'', 1), (''P1'', ''W'', 1)],
     make_vars = [(''P1'', ''W'', 1)]\<rparr>"
  by (simp add: variable_dicts_def flow_index_def npt_index_def)

lemma ex_lanes_loc:
  "c \<in> set (columns (prep_lanes ex_nodes ex_lanes)) \<Longrightarrow>
     lanes_loc (prep_lanes ex_nodes ex_lanes) (''D1'', ''C1'') c f =
       Inr (f (enrich ((ex_lane ''D1'' ''C1'', 39, -85), 37, -95)))"
  "c \<in> set (columns (prep_lanes ex_nodes ex_lanes)) \<Longrightarrow>
     lanes_loc (prep_lanes ex_nodes ex_lanes) (''D2'', ''C1'') c f =
       Inr (f (enrich ((ex_lane ''D2'' ''C1'', 38, -90), 37, -95)))"
  by (simp_all add: lanes_loc_def ex_rows lane_key_def enrich_fields ex_lane_fields)

lemma ex_demand_cs:
  "vs = variable_dicts
     [(''S1'', ''P1''), (''P1'', ''D1''), (''P1'', ''D2''), (''D1'', ''C1''), (''D2'', ''C1'')]
     [''P1''] [''D1'', ''D2''] [''W''] [1] \<Longrightarrow>
   demand_constraints vs [''S1'', ''P1'', ''D1'', ''D2'', ''C1'']
     [(''S1'', ''P1''), (''P1'', ''D1''), (''P1'', ''D2''), (''D1'', ''C1''), (''D2'', ''C1'')]
     ex_demand =
   Inr [\<lparr>lhs = lpSum [var_expr (Flow ''D1'' ''C1'' ''W'' 1), var_expr (Flow ''D2'' ''C1'' ''W'' 1)],
         sense = GE, rhs = num 10\<rparr>]"
  by (simp add: ex_vars demand_constraints_def Let_def ex_demand_def ex_inbound lpSumE_def flow_get_def)

lemma ex_service_cs:
  "vs = variable_dicts
     [(''S1'', ''P1''), (''P1'', ''D1''), (''P1'', ''D2''), (''D1'', ''C1''), (''D2'', ''C1'')]
     [''P1''] [''D1'', ''D2''] [''W''] [1] \<Longrightarrow>
   service_constraints vs (prep_lanes ex_nodes ex_lanes) [''S1'', ''P1'', ''D1'', ''D2'', ''C1'']
     ex_demand sd =
   Inr [\<lparr>lhs = lpSum [times (var_expr (Flow ''D1'' ''C1'' ''W'' 1)) 2,
                       times (var_expr (Flow ''D2'' ''C1'' ''W'' 1)) 2],
         sense = LE, rhs = num (10 * sd)\<rparr>]"
  by (simp add: ex_vars service_constraints_def Let_def ex_demand_def ex_index ex_inbound lpSumE_def
        flow_get_def ex_lanes_loc ex_columns enrich_fields ex_lane_fields)

lemma ex_bom: "bom_constraints vs ex_products PLT T = Inr []"
  by (simp add: bom_constraints_def ex_products_def)

lemma ex_mass:
  "mass_balance_constraints [''D1'', ''D2''] [''P1''] [''S1'', ''P1'', ''D1'', ''D2'', ''C1'']
     [(''S1'', ''P1''), (''P1'', ''D1''), (''P1'', ''D2''), (''D1'', ''C1''), (''D2'', ''C1'')]
     [''W''] [1] =
   [\<lparr>lhs = plus_expr (lpSum [var_expr (Flow ''P1'' ''D1'' ''W'' 1)]) (num 0), sense = EQ,
      rhs = plus_expr (lpSum [var_expr (Flow ''D1'' ''C1'' ''W'' 1)]) (var_expr (Inv ''D1'' ''W'' 1))\<rparr>,
    \<lparr>lhs = plus_expr (lpSum [var_expr (Flow ''P1'' ''D2'' ''W'' 1)]) (num 0), sense = EQ,
      rhs = plus_expr (lpSum [var_expr (Flow ''D2'' ''C1'' ''W'' 1)]) (var_expr (Inv ''D2'' ''W'' 1))\<rparr>,
    \<lparr>lhs = plus_expr (lpSum [var_expr (Flow ''S1'' ''P1'' ''W'' 1)]) (num 0), sense = EQ,
      rhs = plus_expr (plus_expr (lpSum [var_expr (Flow ''P1'' ''D1'' ''W'' 1),
                                         var_expr (Flow ''P1'' ''D2'' ''W'' 1)])
                         (var_expr (Make ''P1'' ''W'' 1)))
              (var_expr (Inv ''P1'' ''W'' 1))\<rparr>]"
  by (simp add: mass_balance_constraints_def mass_balance_def ex_inbound ex_outbound)

lemma ex_shutdown:
  "shutdown_constraints [''D1''] [''D1'', ''D2'']
     [(''S1'', ''P1''), (''P1'', ''D1''), (''P1'', ''D2''), (''D1'', ''C1''), (''D2'', ''C1'')]
     [''W''] [1] =
   [fix_zero (Open ''D1''), fix_zero (Flow ''P1'' ''D1'' ''W'' 1),
    fix_zero (Flow ''D1'' ''C1'' ''W'' 1)]"
  by (simp add: shutdown_constraints_def)

lemma ex_objective_ok:
  "\<exists>obj. objective_expr ex_nodes (prep_lanes ex_nodes ex_lanes) [''P1''] [''D1'', ''D2'']
      P T cp = Inr obj"
  by (rule objective_expr_ok) (simp_all add: ex_node_ids ex_index ex_columns)


lemma ex_build_ok:
  "\<exists>mdl vs. build_model ex_nodes ex_demand ex_lanes ex_products sd ssp cp shut = Inr (mdl, vs)"
proof -
  obtain obj where "objective_expr ex_nodes (prep_lanes ex_nodes ex_lanes) [''P1'']
      [''D1'', ''D2''] [''W''] [1] cp = Inr obj"
    using ex_objective_ok by blast
  then show ?thesis
    by (simp add: build_model_def Let_def ex_node_ids ex_index ex_sets ex_capacity
          ex_demand_cs[OF refl] ex_service_cs[OF refl] ex_bom)
qed

lemma ex_build:
  assumes "build_model ex_nodes ex_demand ex_lanes ex_products sd ssp cp shut = Inr (mdl, vs)"
  shows "constraints mdl =
      shutdown_constraints (remdups shut) [''D1'', ''D2'']
        [(''S1'', ''P1''), (''P1'', ''D1''), (''P1'', ''D2''), (''D1'', ''C1''), (''D2'', ''C1'')]
        [''W''] [1] @
      [\<lparr>lhs = lpSum [var_expr (Flow ''S1'' ''P1'' ''W'' 1)], sense = LE, rhs = num 500\<rparr>,
       \<lparr>lhs = lpSum [var_expr (Flow ''P1'' ''D2'' ''W'' 1)], sense = LE, rhs = num 50\<rparr>,
       \<lparr>lhs = lpSum [var_expr (Flow ''D1'' ''C1'' ''W'' 1), var_expr (Flow ''D2'' ''C1'' ''W'' 1)],
         sense = GE, rhs = num 10\<rparr>,
       \<lparr>lhs = lpSum [times (var_expr (Flow ''D1'' ''C1'' ''W'' 1)) 2,
                      times (var_expr (Flow ''D2'' ''C1'' ''W'' 1)) 2],
         sense = LE, rhs = num (10 * sd)\<rparr>] @
      mass_balance_constraints [''D1'', ''D2''] [''P1''] [''S1'', ''P1'', ''D1'', ''D2'', ''C1'']
        [(''S1'', ''P1''), (''P1'', ''D1''), (''P1'', ''D2''), (''D1'', ''C1''), (''D2'', ''C1'')]
        [''W''] [1]"
    and "flow_vars vs = [(''S1'', ''P1'', ''W'', 1), (''P1'', ''D1'', ''W'', 1),
           (''P1'', ''D2'', ''W'', 1), (''D1'', ''C1'', ''W'', 1), (''D2'', ''C1'', ''W'', 1)]"
    and "open_vars vs = [''D1'', ''D2'']"
proof -
  from assms obtain obj cap dem svc bom where
    cap: "capacity_constraints ex_nodes (PLT_of ex_nodes @ DC_of ex_nodes) (node_ids ex_nodes)
       (lane_index (prep_lanes ex_nodes ex_lanes)) (P_of ex_products) (T_of ex_demand) = Inr cap"
    and dem: "demand_constraints vs (node_ids ex_nodes) (lane_index (prep_lanes ex_nodes ex_lanes))
       ex_demand = Inr dem"
    and svc: "service_constraints vs (prep_lanes ex_nodes ex_lanes) (node_ids ex_nodes)
       ex_demand sd = Inr svc"
    and bom: "bom_constraints vs ex_products (PLT_of ex_nodes) (T_of ex_demand) = Inr bom"
    and vs: "vs = variable_dicts (lane_index (prep_lanes ex_nodes ex_lanes)) (PLT_of ex_nodes)
       (DC_of ex_nodes) (P_of ex_products) (T_of ex_demand)"
    and cs: "constraints mdl =
       shutdown_constraints (remdups shut) (DC_of ex_nodes)
         (lane_index (prep_lanes ex_nodes ex_lanes)) (P_of ex_products) (T_of ex_demand)
       @ cap @ dem @ svc @
       mass_balance_constraints (DC_of ex_nodes) (PLT_of ex_nodes) (node_ids ex_nodes)
         (lane_index (prep_lanes ex_nodes ex_lanes)) (P_of ex_products) (T_of ex_demand) @ bom"
    by (rule build_model_Inr)
  note vs' = vs[unfolded ex_index ex_sets]
  have 1: "cap = [\<lparr>lhs = lpSum [var_expr (Flow ''S1'' ''P1'' ''W'' 1)], sense = LE, rhs = num 500\<rparr>,
       \<lparr>lhs = lpSum [var_expr (Flow ''P1'' ''D2'' ''W'' 1)], sense = LE, rhs = num 50\<rparr>]"
    using cap by (simp add: ex_node_ids ex_index ex_sets ex_capacity)
  have 2: "dem = [\<lparr>lhs = lpSum [var_expr (Flow ''D1'' ''C1'' ''W'' 1),
       var_expr (Flow ''D2'' ''C1'' ''W'' 1)], sense = GE, rhs = num 10\<rparr>]"
    using dem unfolding ex_node_ids ex_index ex_demand_cs[OF vs'] by simp
  have 3: "svc = [\<lparr>lhs = lpSum [times (var_expr (Flow ''D1'' ''C1'' ''W'' 1)) 2,
                      times (var_expr (Flow ''D2'' ''C1'' ''W'' 1)) 2],
         sense = LE, rhs = num (10 * sd)\<rparr>]"
    using svc unfolding ex_node_ids ex_service_cs[OF vs'] by simp
  have 4: "bom = []" using bom by (simp add: ex_bom)
  show "constraints mdl =
      shutdown_constraints (remdups shut) [''D1'', ''D2'']
        [(''S1'', ''P1''), (''P1'', ''D1''), (''P1'', ''D2''), (''D1'', ''C1''), (''D2'', ''C1'')]
        [''W''] [1] @
      [\<lparr>lhs = lpSum [var_expr (Flow ''S1'' ''P1'' ''W'' 1)], sense = LE, rhs = num 500\<rparr>,
       \<lparr>lhs = lpSum [var_expr (Flow ''P1'' ''D2'' ''W'' 1)], sense = LE, rhs = num 50\<rparr>,
       \<lparr>lhs = lpSum [var_expr (Flow ''D1'' ''C1'' ''W'' 1), var_expr (Flow ''D2'' ''C1'' ''W'' 1)],
         sense = GE, rhs = num 10\<rparr>,
       \<lparr>lhs = lpSum [times (var_expr (Flow ''D1'' ''C1'' ''W'' 1)) 2,
                      times (var_expr (Flow ''D2'' ''C1'' ''W'' 1)) 2],
         sense = LE, rhs = num (10 * sd)\<rparr>] @
      mass_balance_constraints [''D1'', ''D2''] [''P1''] [''S1'', ''P1'', ''D1'', ''D2'', ''C1'']
        [(''S1'', ''P1''), (''P1'', ''D1''), (''P1'', ''D2''), (''D1'', ''C1''), (''D2'', ''C1'')]
        [''W''] [1]"
    unfolding cs 1 2 3 4 ex_node_ids ex_index ex_sets by simp
  show "flow_vars vs = [(''S1'', ''P1'', ''W'', 1), (''P1'', ''D1'', ''W'', 1),
           (''P1'', ''D2'', ''W'', 1), (''D1'', ''C1'', ''W'', 1), (''D2'', ''C1'', ''W'', 1)]"
    and "open_vars vs = [''D1'', ''D2'']"
    unfolding vs' ex_vars by simp_all
qed

subsection \<open>Extraction\<close>

lemma LpStatus_Optimal [simp]: "LpStatus st = ''Optimal'' \<longleftrightarrow> st = Optimal"
  by (cases st) simp_all

lemma solve_and_extract_not_optimal:
  assumes "build_model nodes demand lanes products sd ssp cp shut = Inr (mdl, vs)"
    and "solver mdl = (st, sol)" and "st \<noteq> Optimal"
  shows "solve_and_extract solver nodes demand lanes products sd ssp cp shut =
           Inr (LpStatus st, None)"
  using assms by (simp add: solve_and_extract_def)

lemma solve_and_extract_optimal:
  assumes "build_model nodes demand lanes products sd ssp cp shut = Inr (mdl, vs)"
    and "solver mdl = (Optimal, sol)"
  shows "solve_and_extract solver nodes demand lanes products sd ssp cp shut =
           bindE (open_rows sol (open_vars vs)) (\<lambda>ds.
             Inr (''Optimal'',
                  Some \<lparr>flow = flow_rows sol (flow_vars vs), open_dc = ds,
                        objective_value = value_expr sol (objective mdl)\<rparr>))"
  using assms by (simp add: solve_and_extract_def)

lemma set_flow_rows:
  "r \<in> set (flow_rows sol ks) \<longleftrightarrow>
     (\<exists>i j p t x. (i, j, p, t) \<in> set ks \<and> sol (Flow i j p t) = Some x \<and> x > 1 / 10 ^ 6
        \<and> r = \<lparr>From = i, To = j, Product = p, FlowPeriod = t, FlowLbs = x\<rparr>)"
proof (induction ks)
  case Nil
  then show ?case by (simp add: flow_rows_def)
next
  case (Cons k ks)
  obtain i j p t where k: "k = (i, j, p, t)" by (cases k) auto
  have "flow_rows sol (k # ks) =
     (case sol (Flow i j p t) of None \<Rightarrow> []
      | Some x \<Rightarrow> if x \<noteq> 0 \<and> x > 1 / 10 ^ 6
           then [\<lparr>From = i, To = j, Product = p, FlowPeriod = t, FlowLbs = x\<rparr>] else [])
     @ flow_rows sol ks"
    by (simp add: flow_rows_def k)
  then show ?case using Cons.IH
    by (cases "sol (Flow i j p t)") (auto simp: k)
qed

lemma ex_open_rows: "open_rows ex_values [''D1'', ''D2''] = Inr [''D2'']"
  by (simp add: open_rows_def ex_values_def)

subsection \<open>The variables of the parts of a formulation\<close>

lemma expr_vars_simps [simp]:
  "expr_vars (var_expr v) = {v}"
  "expr_vars (num c) = {}"
  "expr_vars (times e k) = expr_vars e"
  "expr_vars (divide_expr e k) = expr_vars e"
  "expr_vars (plus_expr a b) = expr_vars a \<union> expr_vars b"
  "expr_vars (lpSum es) = (\<Union>e\<in>set es. expr_vars e)"
  by (auto simp: expr_vars_def var_expr_def num_def times_def divide_expr_def plus_expr_def
        lpSum_def image_iff split: prod.splits) force+

lemma collect_concat_mem:
  assumes "bindE (collect g xs) (\<lambda>cs. Inr (concat cs)) = Inr ys"
  shows "y \<in> set ys \<longleftrightarrow> (\<exists>x\<in>set xs. \<exists>cl. g x = Inr cl \<and> y \<in> set cl)"
proof -
  from assms obtain cs where cs: "collect g xs = Inr cs" and ys: "ys = concat cs"
    unfolding bindE_eq_Inr by auto
  show ?thesis unfolding ys using collect_Inr_set[OF cs] by auto
qed

lemma lpSumE_vars:
  assumes "lpSumE f xs = Inr e"
  shows "v \<in> expr_vars e \<longleftrightarrow> (\<exists>x\<in>set xs. \<exists>y. f x = Inr y \<and> v \<in> expr_vars y)"
proof -
  from assms obtain es where es: "collect f xs = Inr es" and e: "e = lpSum es"
    unfolding lpSumE_def bindE_eq_Inr by auto
  show ?thesis unfolding e using collect_Inr_set[OF es] by auto
qed

lemma lpSumE_terms:
  assumes "lpSumE f xs = Inr e"
  shows "t \<in> set (fst e) \<longleftrightarrow> (\<exists>x\<in>set xs. \<exists>y. f x = Inr y \<and> t \<in> set (fst y))"
proof -
  from assms obtain es where es: "collect f xs = Inr es" and e: "e = lpSum es"
    unfolding lpSumE_def bindE_eq_Inr by auto
  show ?thesis unfolding e using collect_Inr_set[OF es] by (auto simp: lpSum_def)
qed

lemma constraint_vars_fix_zero [simp]: "constraint_vars (fix_zero v) = {v}"
  by (simp add: constraint_vars_def fix_zero_def)

lemma shutdown_mem:
  "c \<in> set (shutdown_constraints shut DC idx P T) \<longleftrightarrow>
     (\<exists>n\<in>set shut. (n \<in> set DC \<and> c = fix_zero (Open n)) \<or>
        (\<exists>i j p t. (i, j) \<in> set idx \<and> p \<in> set P \<and> t \<in> set T \<and> (i = n \<or> j = n)
           \<and> c = fix_zero (Flow i j p t)))"
  unfolding shutdown_constraints_def
  by (auto split: if_splits) blast+

lemma capacity_node:
  "(\<exists>cl. bindE (node_cap nodes n) (\<lambda>cap.
           case cap of
             None \<Rightarrow> Inr []
           | Some c \<Rightarrow>
               if c \<noteq> 0
               then Inr (map (\<lambda>t. capacity_constraint N idx P n t c) T)
               else Inr []) = Inr cl \<and> c \<in> set cl) \<longleftrightarrow>
   (\<exists>c0 t. node_cap nodes n = Inr (Some c0) \<and> c0 \<noteq> 0 \<and> t \<in> set T
        \<and> c = capacity_constraint N idx P n t c0)"
proof (cases "node_cap nodes n")
  case (Inl e)
  then show ?thesis by simp
next
  case (Inr cap)
  show ?thesis
  proof (cases cap)
    case None
    with Inr show ?thesis by simp
  next
    case (Some c0)
    with Inr show ?thesis by (cases "c0 = 0") auto
  qed
qed

lemma capacity_mem:
  assumes "capacity_constraints nodes ns N idx P T = Inr cap"
  shows "c \<in> set cap \<longleftrightarrow>
     (\<exists>n\<in>set ns. \<exists>c0 t. node_cap nodes n = Inr (Some c0) \<and> c0 \<noteq> 0 \<and> t \<in> set T
        \<and> c = capacity_constraint N idx P n t c0)"
  unfolding collect_concat_mem[OF assms[unfolded capacity_constraints_def], of c] capacity_node
  by (rule refl)

lemma capacity_constraint_vars:
  "constraint_vars (capacity_constraint N idx P n t c0) =
     {Flow i n p t | i p. i \<in> set (inbound N idx n) \<and> p \<in> set P}"
  by (auto simp: constraint_vars_def capacity_constraint_def)

lemma flow_get_vars:
  "flow_get vs k = Inr e \<Longrightarrow> v \<in> expr_vars e \<Longrightarrow> \<exists>i j p t. v = Flow i j p t"
  by (auto simp: flow_get_def split: if_splits prod.splits)

lemma make_get_vars:
  "make_get vs k = Inr e \<Longrightarrow> v \<in> expr_vars e \<Longrightarrow> \<exists>pl p t. v = Make pl p t"
  by (auto simp: make_get_def split: if_splits prod.splits)

lemma demand_vars:
  assumes "demand_constraints vs N idx demand = Inr dem" "c \<in> set dem" "v \<in> constraint_vars c"
  shows "\<exists>i j p t. v = Flow i j p t"
proof -
  from collect_Inr_set[OF assms(1)[unfolded demand_constraints_def]] assms(2)
  obtain row :: demand_row where "(let c = CustomerID row; p = ProductID row; t = Period row;
        dem = DemandLbs row
      in bindE (lpSumE (\<lambda>i. flow_get vs (i, c, p, t)) (inbound N idx c)) (\<lambda>inflow.
            Inr \<lparr>lhs = inflow, sense = GE, rhs = num dem\<rparr>)) = Inr c"
    by blast
  then obtain inflow where
    i: "lpSumE (\<lambda>i. flow_get vs (i, CustomerID row, ProductID row, Period row))
          (inbound N idx (CustomerID row)) = Inr inflow"
    and c: "\<lparr>lhs = inflow, sense = GE, rhs = num (DemandLbs row)\<rparr> = c"
    unfolding Let_def bindE_eq_Inr sum.inject by blast
  from assms(3) have "v \<in> expr_vars inflow" by (simp add: c[symmetric] constraint_vars_def)
  then show ?thesis unfolding lpSumE_vars[OF i] using flow_get_vars by blast
qed

lemma service_vars:
  assumes "service_constraints vs lanes N demand sd = Inr svc" "c \<in> set svc"
    "v \<in> constraint_vars c"
  shows "\<exists>i j p t. v = Flow i j p t"
proof -
  from collect_Inr_set[OF assms(1)[unfolded service_constraints_def]] assms(2)
  obtain row :: demand_row where "(let c = CustomerID row; p = ProductID row; t = Period row;
        dem = DemandLbs row
      in bindE (lpSumE (\<lambda>i.
                bindE (flow_get vs (i, c, p, t)) (\<lambda>f.
                bindE (lanes_loc lanes (i, c) ''TransitDays'' TransitDays) (\<lambda>d.
                Inr (times f d))))
              (inbound N (lane_index lanes) c)) (\<lambda>e.
            Inr \<lparr>lhs = e, sense = LE, rhs = num (dem * sd)\<rparr>)) = Inr c"
    by blast
  then obtain e where
    i: "lpSumE (\<lambda>i. bindE (flow_get vs (i, CustomerID row, ProductID row, Period row)) (\<lambda>f.
                bindE (lanes_loc lanes (i, CustomerID row) ''TransitDays'' TransitDays) (\<lambda>d.
                Inr (times f d))))
          (inbound N (lane_index lanes) (CustomerID row)) = Inr e"
    and c: "\<lparr>lhs = e, sense = LE, rhs = num (DemandLbs row * sd)\<rparr> = c"
    unfolding Let_def bindE_eq_Inr sum.inject by blast
  from assms(3) have "v \<in> expr_vars e" by (simp add: c[symmetric] constraint_vars_def)
  then obtain x y where "bindE (flow_get vs (x, CustomerID row, ProductID row, Period row)) (\<lambda>f.
                bindE (lanes_loc lanes (x, CustomerID row) ''TransitDays'' TransitDays) (\<lambda>d.
                Inr (times f d))) = Inr y" "v \<in> expr_vars y"
    unfolding lpSumE_vars[OF i] by blast
  then show ?thesis using flow_get_vars by (auto simp: bindE_eq_Inr)
qed

lemma mass_balance_vars:
  assumes "v \<in> constraint_vars (mass_balance PLT N idx P T n p ti)"
  shows "\<forall>d. v \<noteq> Open d"
  using assms by (auto simp: constraint_vars_def mass_balance_def Let_def split: if_splits)

lemma mass_balance_constraints_mem:
  "c \<in> set (mass_balance_constraints DC PLT N idx P T) \<longleftrightarrow>
     (\<exists>n\<in>set (DC @ PLT). \<exists>p\<in>set P. \<exists>ti<length T. c = mass_balance PLT N idx P T n p ti)"
proof -
  have "c \<in> set (mass_balance_constraints DC PLT N idx P T) \<longleftrightarrow>
     (\<exists>n\<in>set (DC @ PLT). \<exists>p\<in>set P. \<exists>ti\<in>set [0..<length T].
         c = mass_balance PLT N idx P T n p ti)"
    unfolding mass_balance_constraints_def by (simp only: set_concat set_map image_image UN_iff Bex_def image_iff)
  also have "\<dots> \<longleftrightarrow>
     (\<exists>n\<in>set (DC @ PLT). \<exists>p\<in>set P. \<exists>ti<length T. c = mass_balance PLT N idx P T n p ti)"
    by (simp add: Bex_def)
  finally show ?thesis .
qed

lemma bom_row:
  assumes "(case BOM_Component row of
               None \<Rightarrow> Inr []
             | Some parent \<Rightarrow>
                 if ''InputLB_per_OutputLB'' \<notin> set (columns products) then Inl KeyError
                 else collect (\<lambda>(pl, t).
                        bindE (make_get vs (pl, parent, t)) (\<lambda>m.
                        Inr \<lparr>lhs = times m (InputLB_per_OutputLB row), sense = GE,
                            rhs = var_expr (Make pl (ProductIndex row) t)\<rparr>))
                      (List.product PLT T)) = Inr cl" "c \<in> set cl"
  obtains parent pl t m where "BOM_Component row = Some parent"
    "''InputLB_per_OutputLB'' \<in> set (columns products)"
    "pl \<in> set PLT" "t \<in> set T" "make_get vs (pl, parent, t) = Inr m"
    "lhs c = times m (InputLB_per_OutputLB row)" "sense c = GE"
    "rhs c = var_expr (Make pl (ProductIndex row) t)"
proof (cases "BOM_Component row")
  case None
  with assms show ?thesis by simp
next
  case (Some parent)
  with assms have col: "''InputLB_per_OutputLB'' \<in> set (columns products)"
    and cl: "collect (\<lambda>(pl, t). bindE (make_get vs (pl, parent, t)) (\<lambda>m.
           Inr \<lparr>lhs = times m (InputLB_per_OutputLB row), sense = GE,
                rhs = var_expr (Make pl (ProductIndex row) t)\<rparr>)) (List.product PLT T) = Inr cl"
    by (auto split: if_splits)
  from assms(2) collect_Inr_set[OF cl] obtain x where x: "x \<in> set (List.product PLT T)"
    "(case x of (pl, t) \<Rightarrow> bindE (make_get vs (pl, parent, t)) (\<lambda>m.
           Inr \<lparr>lhs = times m (InputLB_per_OutputLB row), sense = GE,
                rhs = var_expr (Make pl (ProductIndex row) t)\<rparr>)) = Inr c"
    by blast
  obtain pl t where pt: "x = (pl, t)" by (cases x) auto
  from x(2) obtain m where m: "make_get vs (pl, parent, t) = Inr m"
    "c = \<lparr>lhs = times m (InputLB_per_OutputLB row), sense = GE,
                rhs = var_expr (Make pl (ProductIndex row) t)\<rparr>"
    unfolding pt by (auto simp: bindE_eq_Inr)
  show ?thesis
    by (rule that[OF Some col _ _ m(1)]) (use x(1) in \<open>simp_all add: pt m(2)\<close>)
qed

lemma bom_vars:
  assumes "bom_constraints vs products PLT T = Inr bom" "c \<in> set bom" "v \<in> constraint_vars c"
  shows "\<exists>pl p t. v = Make pl p t"
proof (cases "''BOM_Component'' \<in> set (columns products)")
  case False
  with assms show ?thesis by (simp add: bom_constraints_def)
next
  case True
  note m = collect_concat_mem[OF assms(1)[unfolded bom_constraints_def if_P[OF True]], of c]
  from assms(2)[unfolded m] obtain row :: product_row and cl where
    "(case BOM_Component row of
               None \<Rightarrow> Inr []
             | Some parent \<Rightarrow>
                 if ''InputLB_per_OutputLB'' \<notin> set (columns products) then Inl KeyError
                 else collect (\<lambda>(pl, t).
                        bindE (make_get vs (pl, parent, t)) (\<lambda>m.
                        Inr \<lparr>lhs = times m (InputLB_per_OutputLB row), sense = GE,
                            rhs = var_expr (Make pl (ProductIndex row) t)\<rparr>))
                      (List.product PLT T)) = Inr cl" "c \<in> set cl"
    by blast
  then obtain parent pl t m where "make_get vs (pl, parent, t) = Inr m"
    "lhs c = times m (InputLB_per_OutputLB row)"
    "rhs c = var_expr (Make pl (ProductIndex row) t)"
    by (rule bom_row)
  note mg = this
  from assms(3) have "v \<in> expr_vars m \<or> v = Make pl (ProductIndex row) t"
    by (auto simp: constraint_vars_def mg(2,3))
  then show ?thesis using make_get_vars[OF mg(1), of v] by blast
qed

subsection \<open>Meaning of constraints, terms of the objective\<close>

lemma eval_cong:
  assumes "\<And>v. v \<in> expr_vars e \<Longrightarrow> val v = val' v"
  shows "eval val e = eval val' e"
proof -
  have "val (fst x) = val' (fst x)" if "x \<in> set (fst e)" for x
    using assms[of "fst x"] that by (simp add: expr_vars_def)
  note h = this
  have "map (\<lambda>(v, k). k * val v) (fst e) = map (\<lambda>(v, k). k * val' v) (fst e)"
  proof (rule map_cong[OF refl])
    fix x assume "x \<in> set (fst e)"
    then have "val (fst x) = val' (fst x)" by (rule h)
    then show "(case x of (v, k) \<Rightarrow> k * val v) = (case x of (v, k) \<Rightarrow> k * val' v)"
      by (simp add: split_beta)
  qed
  then show ?thesis by (simp only: eval_def)
qed

lemma holds_cong:
  assumes "\<And>v. v \<in> constraint_vars c \<Longrightarrow> val v = val' v"
  shows "holds val c = holds val' c"
proof -
  have "eval val (lhs c) = eval val' (lhs c)" "eval val (rhs c) = eval val' (rhs c)"
    using assms by (auto intro!: eval_cong simp: constraint_vars_def)
  then show ?thesis by (simp add: holds_def split: sense.split)
qed

lemma holds_fix_zero [simp]: "holds val (fix_zero v) \<longleftrightarrow> val v = 0"
  by (simp add: holds_def fix_zero_def eval_def var_expr_def num_def)

lemma prod_cost_vars:
  assumes "prod_cost nodes PLT P T = Inr e" "v \<in> expr_vars e"
  shows "\<exists>pl p t. v = Make pl p t"
proof -
  from assms(2) obtain x y where
    "(case x of (pl, p, t) \<Rightarrow>
        bindE (node_var nodes pl) (\<lambda>k. Inr (times (var_expr (Make pl p t)) k))) = Inr y"
    "v \<in> expr_vars y"
    unfolding lpSumE_vars[OF assms(1)[unfolded prod_cost_def]] by blast
  then show ?thesis by (cases x) (auto simp: bindE_eq_Inr)
qed

lemma wh_hold_vars:
  assumes "wh_hold nodes ns P T = Inr e" "v \<in> expr_vars e"
  shows "\<exists>n p t. v = Inv n p t"
proof -
  from assms(2) obtain x y where
    "(case x of (n, p, t) \<Rightarrow>
        bindE (node_var nodes n) (\<lambda>k. Inr (times (var_expr (Inv n p t)) k))) = Inr y"
    "v \<in> expr_vars y"
    unfolding lpSumE_vars[OF assms(1)[unfolded wh_hold_def]] by blast
  then show ?thesis by (cases x) (auto simp: bindE_eq_Inr)
qed

lemma trans_cost_vars:
  assumes "trans_cost lanes P T = Inr e" "v \<in> expr_vars e"
  shows "\<exists>i j p t. v = Flow i j p t"
proof -
  from assms(2) obtain x y where
    "(case x of (i, j, p, t) \<Rightarrow>
         bindE (lanes_loc lanes (i, j) ''Cost_per_lb_mi'' Cost_per_lb_mi) (\<lambda>c.
         bindE (lanes_loc lanes (i, j) ''Dist_mi'' Dist_mi) (\<lambda>d.
         Inr (times (times (var_expr (Flow i j p t)) c) d)))) = Inr y"
    "v \<in> expr_vars y"
    unfolding lpSumE_vars[OF assms(1)[unfolded trans_cost_def]] by blast
  then show ?thesis by (cases x) (auto simp: bindE_eq_Inr)
qed

lemma duty_cost_vars:
  assumes "duty_cost lanes P T = Inr e" "v \<in> expr_vars e"
  shows "\<exists>i j p t. v = Flow i j p t"
proof -
  from assms(2) obtain x y where
    "(case x of (i, j, p, t) \<Rightarrow>
         bindE (lanes_get lanes (i, j) ''DutyRate'' DutyRate 0) (\<lambda>r.
         Inr (times (var_expr (Flow i j p t)) r))) = Inr y"
    "v \<in> expr_vars y"
    unfolding lpSumE_vars[OF assms(1)[unfolded duty_cost_def]] by blast
  then show ?thesis by (cases x) (auto simp: bindE_eq_Inr)
qed

lemma carbon_vars:
  assumes "carbon lanes P T cp = Inr e" "v \<in> expr_vars e"
  shows "\<exists>i j p t. v = Flow i j p t"
proof -
  from assms(2) obtain x y where
    "(case x of (i, j, p, t) \<Rightarrow>
         bindE (lanes_loc lanes (i, j) ''Dist_mi'' Dist_mi) (\<lambda>d.
         bindE (lanes_get lanes (i, j) ''CO2_per_lb_mi'' CO2_per_lb_mi 0) (\<lambda>c.
         Inr (divide_expr (times (times (times (var_expr (Flow i j p t)) d) c) cp)
                2204.62)))) = Inr y"
    "v \<in> expr_vars y"
    unfolding lpSumE_vars[OF assms(1)[unfolded carbon_def]] by blast
  then show ?thesis by (cases x) (auto simp: bindE_eq_Inr)
qed

lemma wh_fixed_terms:
  assumes "wh_fixed nodes DC = Inr e"
  shows "(v, k) \<in> set (fst e) \<longleftrightarrow> (\<exists>d\<in>set DC. v = Open d \<and> node_fixed nodes d = Inr k)"
proof
  assume "(v, k) \<in> set (fst e)"
  then show "\<exists>d\<in>set DC. v = Open d \<and> node_fixed nodes d = Inr k"
    unfolding lpSumE_terms[OF assms[unfolded wh_fixed_def]]
    by (auto simp: bindE_eq_Inr times_def var_expr_def)
next
  assume "\<exists>d\<in>set DC. v = Open d \<and> node_fixed nodes d = Inr k"
  then obtain d where d: "d \<in> set DC" "v = Open d" "node_fixed nodes d = Inr k" by blast
  have "bindE (node_fixed nodes d) (\<lambda>k. Inr (times (var_expr (Open d)) k)) = Inr ([(Open d, k)], 0)"
    by (simp add: d(3) times_def var_expr_def)
  then show "(v, k) \<in> set (fst e)"
    unfolding lpSumE_terms[OF assms[unfolded wh_fixed_def]] using d(1,2) by force
qed

lemma not_in_terms: "v \<notin> expr_vars e \<Longrightarrow> (v, k) \<notin> set (fst e)"
  by (auto simp: expr_vars_def image_iff)

lemma objective_open_terms:
  assumes "objective_expr nodes lanes PLT DC P T cp = Inr obj"
  shows "(Open d, k) \<in> set (fst obj) \<longleftrightarrow> d \<in> set DC \<and> node_fixed nodes d = Inr k"
proof -
  from assms obtain e1 e2 e3 e4 e5 e6 where
    e: "prod_cost nodes PLT P T = Inr e1" "wh_fixed nodes DC = Inr e2"
       "wh_hold nodes (DC @ PLT) P T = Inr e3" "trans_cost lanes P T = Inr e4"
       "duty_cost lanes P T = Inr e5" "carbon lanes P T cp = Inr e6"
    and obj: "obj = plus_expr (plus_expr (plus_expr (plus_expr (plus_expr e1 e2) e3) e4) e5) e6"
    unfolding objective_expr_def bindE_eq_Inr by auto
  have n: "(Open d, k) \<notin> set (fst e1)" "(Open d, k) \<notin> set (fst e3)"
    "(Open d, k) \<notin> set (fst e4)" "(Open d, k) \<notin> set (fst e5)" "(Open d, k) \<notin> set (fst e6)"
    using prod_cost_vars[OF e(1), of "Open d"] wh_hold_vars[OF e(3), of "Open d"]
      trans_cost_vars[OF e(4), of "Open d"] duty_cost_vars[OF e(5), of "Open d"]
      carbon_vars[OF e(6), of "Open d"]
    by (auto intro!: not_in_terms)
  have "(Open d, k) \<in> set (fst obj) \<longleftrightarrow> (Open d, k) \<in> set (fst e2)"
    using n by (simp add: obj plus_expr_def)
  then show ?thesis unfolding wh_fixed_terms[OF e(2)] by auto
qed

lemma shutdown_open:
  assumes "c \<in> set (shutdown_constraints shut DC idx P T)" "Open d \<in> constraint_vars c"
  shows "d \<in> set shut \<and> d \<in> set DC \<and> c = fix_zero (Open d)"
proof -
  from assms(1) obtain n where n: "n \<in> set shut"
    and c: "(n \<in> set DC \<and> c = fix_zero (Open n)) \<or>
        (\<exists>i j p t. (i, j) \<in> set idx \<and> p \<in> set P \<and> t \<in> set T \<and> (i = n \<or> j = n)
           \<and> c = fix_zero (Flow i j p t))"
    unfolding shutdown_mem by blast
  from c show ?thesis
  proof
    assume a: "n \<in> set DC \<and> c = fix_zero (Open n)"
    with assms(2) have "d = n" by simp
    with a n show ?thesis by simp
  next
    assume "\<exists>i j p t. (i, j) \<in> set idx \<and> p \<in> set P \<and> t \<in> set T \<and> (i = n \<or> j = n)
           \<and> c = fix_zero (Flow i j p t)"
    then obtain i j p t where "c = fix_zero (Flow i j p t)" by blast
    with assms(2) show ?thesis by simp
  qed
qed

lemma capacity_open:
  assumes "capacity_constraints nodes ns N idx P T = Inr cap" "c \<in> set cap"
  shows "Open d \<notin> constraint_vars c"
proof -
  from assms(2) obtain n c0 t where "c = capacity_constraint N idx P n t c0"
    unfolding capacity_mem[OF assms(1)] by blast
  then show ?thesis by (simp add: capacity_constraint_vars)
qed

lemma mass_open:
  assumes "c \<in> set (mass_balance_constraints DC PLT N idx P T)"
  shows "Open d \<notin> constraint_vars c"
proof -
  from assms obtain n p ti where "c = mass_balance PLT N idx P T n p ti"
    unfolding mass_balance_constraints_mem by blast
  then show ?thesis using mass_balance_vars[of "Open d" PLT N idx P T n p ti] by blast
qed

lemma constraint_no_open:
  assumes "build_model nodes demand lanes products sd ssp cp shut = Inr (mdl, vs)"
    and "c \<in> set (constraints mdl)" and "Open d \<in> constraint_vars c"
  shows "d \<in> set shut \<and> d \<in> set (DC_of nodes) \<and> c = fix_zero (Open d)"
proof -
  from assms(1) obtain obj cap dem svc bom where
    cap: "capacity_constraints nodes (PLT_of nodes @ DC_of nodes) (node_ids nodes)
       (lane_index (prep_lanes nodes lanes)) (P_of products) (T_of demand) = Inr cap"
    and dem: "demand_constraints vs (node_ids nodes) (lane_index (prep_lanes nodes lanes))
       demand = Inr dem"
    and svc: "service_constraints vs (prep_lanes nodes lanes) (node_ids nodes) demand sd = Inr svc"
    and bom: "bom_constraints vs products (PLT_of nodes) (T_of demand) = Inr bom"
    and cs: "constraints mdl =
       shutdown_constraints (remdups shut) (DC_of nodes) (lane_index (prep_lanes nodes lanes))
         (P_of products) (T_of demand) @ cap @ dem @ svc @
       mass_balance_constraints (DC_of nodes) (PLT_of nodes) (node_ids nodes)
         (lane_index (prep_lanes nodes lanes)) (P_of products) (T_of demand) @ bom"
    by (rule build_model_Inr)
  from assms(2) consider
      (shut) "c \<in> set (shutdown_constraints (remdups shut) (DC_of nodes)
         (lane_index (prep_lanes nodes lanes)) (P_of products) (T_of demand))"
    | (cap) "c \<in> set cap" | (dem) "c \<in> set dem" | (svc) "c \<in> set svc"
    | (mass) "c \<in> set (mass_balance_constraints (DC_of nodes) (PLT_of nodes) (node_ids nodes)
         (lane_index (prep_lanes nodes lanes)) (P_of products) (T_of demand))"
    | (bom) "c \<in> set bom"
    unfolding cs set_append by blast
  then show ?thesis
  proof cases
    case shut
    from shutdown_open[OF shut assms(3)] show ?thesis by simp
  next
    case cap
    from capacity_open[OF \<open>capacity_constraints _ _ _ _ _ _ = Inr cap\<close> cap, of d] assms(3)
    show ?thesis by simp
  next
    case dem
    from demand_vars[OF \<open>demand_constraints _ _ _ _ = Inr dem\<close> dem assms(3)]
    show ?thesis by simp
  next
    case svc
    from service_vars[OF \<open>service_constraints _ _ _ _ _ = Inr svc\<close> svc assms(3)]
    show ?thesis by simp
  next
    case mass
    from mass_open[OF mass, of d] assms(3) show ?thesis by simp
  next
    case bom
    from bom_vars[OF \<open>bom_constraints _ _ _ _ = Inr bom\<close> bom assms(3)]
    show ?thesis by simp
  qed
qed

lemma set_open_rows:
  assumes "open_rows sol ds = Inr xs"
  shows "d \<in> set xs \<longleftrightarrow> d \<in> set ds \<and> (\<exists>x. sol (Open d) = Some x \<and> x > 0.5)"
proof -
  have "d \<in> set xs \<longleftrightarrow> (\<exists>x\<in>set ds. \<exists>cl.
      (case sol (Open x) of None \<Rightarrow> Inl TypeError
       | Some y \<Rightarrow> Inr (if y > 0.5 then [x] else [])) = Inr cl \<and> d \<in> set cl)"
    by (rule collect_concat_mem[OF assms[unfolded open_rows_def]])
  also have "\<dots> \<longleftrightarrow> d \<in> set ds \<and> (\<exists>x. sol (Open d) = Some x \<and> x > 0.5)"
    by (auto split: option.splits if_splits)
  finally show ?thesis .
qed

lemma satisfies_fix_zero: "satisfies sol (fix_zero v) \<longleftrightarrow> sol v = Some 0"
  by (auto simp: satisfies_def fix_zero_def var_expr_def num_def holds_def eval_def value_of_def
        split: option.splits)

lemma shutdown_in_constraints:
  assumes "build_model nodes demand lanes products sd ssp cp shut = Inr (mdl, vs)"
    and "c \<in> set (shutdown_constraints (remdups shut) (DC_of nodes)
          (lane_index (prep_lanes nodes lanes)) (P_of products) (T_of demand))"
  shows "c \<in> set (constraints mdl)"
proof -
  from assms(1) obtain cap dem svc bom where "constraints mdl =
       shutdown_constraints (remdups shut) (DC_of nodes) (lane_index (prep_lanes nodes lanes))
         (P_of products) (T_of demand) @ cap @ dem @ svc @
       mass_balance_constraints (DC_of nodes) (PLT_of nodes) (node_ids nodes)
         (lane_index (prep_lanes nodes lanes)) (P_of products) (T_of demand) @ bom"
    by (rule build_model_Inr)
  with assms(2) show ?thesis by simp
qed

lemma build_model_vars:
  assumes "build_model nodes demand lanes products sd ssp cp shut = Inr (mdl, vs)"
  shows "set (flow_vars vs) = {(i, j, p, t). (i, j) \<in> set (lane_index (prep_lanes nodes lanes))
            \<and> p \<in> set (P_of products) \<and> t \<in> set (T_of demand)}"
    and "set (open_vars vs) = set (DC_of nodes)"
proof -
  from assms obtain obj where "vs = variable_dicts (lane_index (prep_lanes nodes lanes))
      (PLT_of nodes) (DC_of nodes) (P_of products) (T_of demand)"
    by (rule build_model_Inr)
  then show "set (flow_vars vs) = {(i, j, p, t). (i, j) \<in> set (lane_index (prep_lanes nodes lanes))
            \<and> p \<in> set (P_of products) \<and> t \<in> set (T_of demand)}"
    and "set (open_vars vs) = set (DC_of nodes)"
    by (simp_all add: variable_dicts_def set_flow_index)
qed

lemma solve_and_extract_result:
  assumes "build_model nodes demand lanes products sd ssp cp shut = Inr (mdl, vs)"
    and "solver mdl = (st, sol)"
    and "solve_and_extract solver nodes demand lanes products sd ssp cp shut = Inr (s, Some res)"
  shows "st = Optimal" "flow res = flow_rows sol (flow_vars vs)"
    "open_rows sol (open_vars vs) = Inr (open_dc res)"
    "objective_value res = value_expr sol (objective mdl)"
proof -
  show st: "st = Optimal"
  proof (rule ccontr)
    assume "st \<noteq> Optimal"
    from solve_and_extract_not_optimal[where solver = solver, OF assms(1,2) this] assms(3)
    show False by simp
  qed
  have "bindE (open_rows sol (open_vars vs)) (\<lambda>ds.
             Inr (''Optimal'',
                  Some \<lparr>flow = flow_rows sol (flow_vars vs), open_dc = ds,
                        objective_value = value_expr sol (objective mdl)\<rparr>))
          = Inr (s, Some res)"
    using solve_and_extract_optimal[where solver = solver, OF assms(1) assms(2)[unfolded st]]
      assms(3) by simp
  then obtain ds where "open_rows sol (open_vars vs) = Inr ds"
    "res = \<lparr>flow = flow_rows sol (flow_vars vs), open_dc = ds,
                        objective_value = value_expr sol (objective mdl)\<rparr>"
    unfolding bindE_eq_Inr by auto
  then show "flow res = flow_rows sol (flow_vars vs)"
    "open_rows sol (open_vars vs) = Inr (open_dc res)"
    "objective_value res = value_expr sol (objective mdl)"
    by simp_all
qed

lemma ex_values_simps:
  "ex_values (Open d) = Some (if d = ''D2'' then 1 else 0)"
  "ex_values (Flow i j p t) = Some (if (i, j) = (''S1'', ''P1'') \<or> (i, j) = (''P1'', ''D2'')
      \<or> (i, j) = (''D2'', ''C1'') then 10 else 0)"
  "ex_values (Make pl p t) = Some 0"
  "ex_values (Inv n p t) = Some 0"
  by (simp_all add: ex_values_def)

lemma ex_value_of:
  "value_of ex_values (Open d) = (if d = ''D2'' then 1 else 0)"
  "value_of ex_values (Flow i j p t) = (if (i, j) = (''S1'', ''P1'') \<or> (i, j) = (''P1'', ''D2'')
      \<or> (i, j) = (''D2'', ''C1'') then 10 else 0)"
  "value_of ex_values (Make pl p t) = 0"
  "value_of ex_values (Inv n p t) = 0"
  by (simp_all add: value_of_def ex_values_simps)

lemma ex_satisfies:
  assumes "build_model ex_nodes ex_demand ex_lanes ex_products 7 ssp cp [''D1''] = Inr (mdl, vs)"
    and "c \<in> set (constraints mdl)"
  shows "satisfies ex_values c"
proof -
  have "c \<in> set ([fix_zero (Open ''D1''), fix_zero (Flow ''P1'' ''D1'' ''W'' 1),
    fix_zero (Flow ''D1'' ''C1'' ''W'' 1)] @
      [\<lparr>lhs = lpSum [var_expr (Flow ''S1'' ''P1'' ''W'' 1)], sense = LE, rhs = num 500\<rparr>,
       \<lparr>lhs = lpSum [var_expr (Flow ''P1'' ''D2'' ''W'' 1)], sense = LE, rhs = num 50\<rparr>,
       \<lparr>lhs = lpSum [var_expr (Flow ''D1'' ''C1'' ''W'' 1), var_expr (Flow ''D2'' ''C1'' ''W'' 1)],
         sense = GE, rhs = num 10\<rparr>,
       \<lparr>lhs = lpSum [times (var_expr (Flow ''D1'' ''C1'' ''W'' 1)) 2,
                      times (var_expr (Flow ''D2'' ''C1'' ''W'' 1)) 2],
         sense = LE, rhs = num (10 * 7)\<rparr>] @
   [\<lparr>lhs = plus_expr (lpSum [var_expr (Flow ''P1'' ''D1'' ''W'' 1)]) (num 0), sense = EQ,
      rhs = plus_expr (lpSum [var_expr (Flow ''D1'' ''C1'' ''W'' 1)]) (var_expr (Inv ''D1'' ''W'' 1))\<rparr>,
    \<lparr>lhs = plus_expr (lpSum [var_expr (Flow ''P1'' ''D2'' ''W'' 1)]) (num 0), sense = EQ,
      rhs = plus_expr (lpSum [var_expr (Flow ''D2'' ''C1'' ''W'' 1)]) (var_expr (Inv ''D2'' ''W'' 1))\<rparr>,
    \<lparr>lhs = plus_expr (lpSum [var_expr (Flow ''S1'' ''P1'' ''W'' 1)]) (num 0), sense = EQ,
      rhs = plus_expr (plus_expr (lpSum [var_expr (Flow ''P1'' ''D1'' ''W'' 1),
                                         var_expr (Flow ''P1'' ''D2'' ''W'' 1)])
                         (var_expr (Make ''P1'' ''W'' 1)))
              (var_expr (Inv ''P1'' ''W'' 1))\<rparr>])"
    using assms(2) unfolding ex_build(1)[OF assms(1)] by (simp only: remdups.simps list.set empty_iff if_False ex_shutdown ex_mass)
  then consider "c = fix_zero (Open ''D1'')" | "c = fix_zero (Flow ''P1'' ''D1'' ''W'' 1)"
    | "c = fix_zero (Flow ''D1'' ''C1'' ''W'' 1)"
    | "c = \<lparr>lhs = lpSum [var_expr (Flow ''S1'' ''P1'' ''W'' 1)], sense = LE, rhs = num 500\<rparr>"
    | "c = \<lparr>lhs = lpSum [var_expr (Flow ''P1'' ''D2'' ''W'' 1)], sense = LE, rhs = num 50\<rparr>"
    | "c = \<lparr>lhs = lpSum [var_expr (Flow ''D1'' ''C1'' ''W'' 1), var_expr (Flow ''D2'' ''C1'' ''W'' 1)],
         sense = GE, rhs = num 10\<rparr>"
    | "c = \<lparr>lhs = lpSum [times (var_expr (Flow ''D1'' ''C1'' ''W'' 1)) 2,
                      times (var_expr (Flow ''D2'' ''C1'' ''W'' 1)) 2],
         sense = LE, rhs = num (10 * 7)\<rparr>"
    | "c = \<lparr>lhs = plus_expr (lpSum [var_expr (Flow ''P1'' ''D1'' ''W'' 1)]) (num 0), sense = EQ,
      rhs = plus_expr (lpSum [var_expr (Flow ''D1'' ''C1'' ''W'' 1)]) (var_expr (Inv ''D1'' ''W'' 1))\<rparr>"
    | "c = \<lparr>lhs = plus_expr (lpSum [var_expr (Flow ''P1'' ''D2'' ''W'' 1)]) (num 0), sense = EQ,
      rhs = plus_expr (lpSum [var_expr (Flow ''D2'' ''C1'' ''W'' 1)]) (var_expr (Inv ''D2'' ''W'' 1))\<rparr>"
    | "c = \<lparr>lhs = plus_expr (lpSum [var_expr (Flow ''S1'' ''P1'' ''W'' 1)]) (num 0), sense = EQ,
      rhs = plus_expr (plus_expr (lpSum [var_expr (Flow ''P1'' ''D1'' ''W'' 1),
                                         var_expr (Flow ''P1'' ''D2'' ''W'' 1)])
                         (var_expr (Make ''P1'' ''W'' 1)))
              (var_expr (Inv ''P1'' ''W'' 1))\<rparr>"
    unfolding set_append set_simps Un_iff insert_iff empty_iff by blast
  then show ?thesis
  proof cases
    case 1 then show ?thesis by (simp add: fix_zero_def satisfies_def holds_def eval_def var_expr_def num_def ex_value_of ex_values_simps)
  next
    case 2 then show ?thesis by (simp add: fix_zero_def satisfies_def holds_def eval_def var_expr_def num_def ex_value_of ex_values_simps)
  next
    case 3 then show ?thesis by (simp add: fix_zero_def satisfies_def holds_def eval_def var_expr_def num_def ex_value_of ex_values_simps)
  next
    case 4 then show ?thesis by (simp add: satisfies_def holds_def eval_def lpSum_def var_expr_def num_def plus_expr_def times_def ex_value_of ex_values_simps)
  next
    case 5 then show ?thesis by (simp add: satisfies_def holds_def eval_def lpSum_def var_expr_def num_def plus_expr_def times_def ex_value_of ex_values_simps)
  next
    case 6 then show ?thesis by (simp add: satisfies_def holds_def eval_def lpSum_def var_expr_def num_def plus_expr_def times_def ex_value_of ex_values_simps)
  next
    case 7 then show ?thesis by (simp add: satisfies_def holds_def eval_def lpSum_def var_expr_def num_def plus_expr_def times_def ex_value_of ex_values_simps)
  next
    case 8 then show ?thesis by (simp add: satisfies_def holds_def eval_def lpSum_def var_expr_def num_def plus_expr_def times_def ex_value_of ex_values_simps)
  next
    case 9 then show ?thesis by (simp add: satisfies_def holds_def eval_def lpSum_def var_expr_def num_def plus_expr_def times_def ex_value_of ex_values_simps)
  next
    case 10 then show ?thesis by (simp add: satisfies_def holds_def eval_def lpSum_def var_expr_def num_def plus_expr_def times_def ex_value_of ex_values_simps)
  qed
qed

subsection \<open>Values of the expressions of a mass balance\<close>








subsection \<open>When the builder fails\<close>


















section \<open>Claims\<close>

subsection \<open>Lane preprocessing\<close>

text \<open>
  C3, as stated: a lane whose origin or destination id is absent from the node table
  makes lane preprocessing fail with a MissingNodeReference condition. It does not:
  the table with the single lane from \<open>P1\<close> to the unknown node \<open>X9\<close> is
  preprocessed to the empty lane table.
\<close>

theorem missing_node_counterexample:
  "\<not> endpoints_known ex_nodes (ex_lane ''P1'' ''X9'')
   \<and> rows ex_lanes_unknown = [ex_lane ''P1'' ''X9'']
   \<and> rows (prep_lanes ex_nodes ex_lanes_unknown) = []"
proof -
  have "\<not> endpoints_known ex_nodes (ex_lane ''P1'' ''X9'')"
    by (simp add: endpoints_known_def ex_node_ids ex_lane_def)
  moreover have "rows ex_lanes_unknown = [ex_lane ''P1'' ''X9'']"
    by (simp add: ex_lanes_unknown_def)
  ultimately show ?thesis using ex_unknown_rows by blast
qed

text \<open>
  C3, amended: lane preprocessing never fails on an unknown endpoint. It drops every
  lane whose origin or destination id is absent from the node table: the lanes of the
  enriched table are exactly the raw lanes with both endpoints in the node table.
\<close>

theorem prep_lanes_drops_unknown_endpoints:
  "set (map lane_row.truncate (rows (prep_lanes nodes lanes))) =
     {l \<in> set (rows lanes). endpoints_known nodes l}"
  by (rule prep_lanes_rows_set)

theorem prep_lanes_drops_unknown_endpoints_witness:
  "set (map lane_row.truncate (rows (prep_lanes ex_nodes ex_lanes_mixed))) =
     {ex_lane ''S1'' ''P1'', ex_lane ''D2'' ''C1''}"
proof -
  have "filter (endpoints_known ex_nodes) (rows ex_lanes_mixed) =
          [ex_lane ''S1'' ''P1'', ex_lane ''D2'' ''C1'']"
    by (simp add: ex_lanes_mixed_def endpoints_known_def ex_node_ids ex_lane_fields)
  then have "{l \<in> set (rows ex_lanes_mixed). endpoints_known ex_nodes l} =
          set [ex_lane ''S1'' ''P1'', ex_lane ''D2'' ''C1'']"
    by (simp only: set_filter[symmetric])
  then show ?thesis
    using prep_lanes_drops_unknown_endpoints[of ex_nodes ex_lanes_mixed]
    by (simp only: list.set)
qed

text \<open>
  C4, as stated: a raw lane table with two lanes of the same (origin, destination) pair
  is rejected with a DuplicateLaneError, so the enriched table has unique keys. It is
  not: the table with the lane from \<open>P1\<close> to \<open>D1\<close> twice is preprocessed to a
  table whose index holds that key twice.
\<close>

theorem duplicate_lanes_counterexample:
  "lane_index (prep_lanes ex_nodes ex_lanes_dup) = [(''P1'', ''D1''), (''P1'', ''D1'')]
   \<and> \<not> distinct (lane_index (prep_lanes ex_nodes ex_lanes_dup))"
  by (simp add: ex_dup_index)

text \<open>
  C4, amended: lane preprocessing does not reject a repeated (origin, destination)
  pair. With unique node ids, the keys of the enriched table are unique exactly when
  the keys of the raw lanes with both endpoints in the node table are unique.
\<close>

theorem prep_lanes_keeps_duplicates:
  assumes "distinct (node_ids nodes)"
  shows "distinct (lane_index (prep_lanes nodes lanes)) \<longleftrightarrow>
         distinct (map lane_key (filter (endpoints_known nodes) (rows lanes)))"
  by (simp only: lane_index_prep prep_lanes_rows_distinct[OF assms])

theorem prep_lanes_keeps_duplicates_witness:
  "distinct (node_ids ex_nodes)
   \<and> \<not> distinct (map lane_key (filter (endpoints_known ex_nodes) (rows ex_lanes_dup)))
   \<and> \<not> distinct (lane_index (prep_lanes ex_nodes ex_lanes_dup))"
proof -
  have d: "distinct (node_ids ex_nodes)" by (simp add: ex_node_ids)
  have "\<not> distinct (map lane_key (filter (endpoints_known ex_nodes) (rows ex_lanes_dup)))"
    by (simp add: ex_lanes_dup_def endpoints_known_def ex_node_ids ex_lane_def lane_key_def)
  then show ?thesis using prep_lanes_keeps_duplicates[OF d, of ex_lanes_dup] d by blast
qed

subsection \<open>The safety-stock fraction\<close>

text \<open>
  C10: the safety-stock fraction has no effect. For any two values of
  \<open>safety_stock_pct\<close> and otherwise identical inputs, \<open>build_model\<close> returns the
  same formulation and the same variables (or the same error), and
  \<open>solve_and_extract\<close> the same result.
\<close>

theorem safety_stock_pct_unused:
  "build_model nodes demand lanes products service_days ssp1 carbon_price shut_nodes =
   build_model nodes demand lanes products service_days ssp2 carbon_price shut_nodes
   \<and> solve_and_extract solver nodes demand lanes products service_days ssp1 carbon_price
        shut_nodes =
     solve_and_extract solver nodes demand lanes products service_days ssp2 carbon_price
        shut_nodes"
  by (simp add: build_model_def solve_and_extract_def)

subsection \<open>Result extraction\<close>

text \<open>
  C9: when the solver's status is anything other than Optimal, \<open>solve_and_extract\<close>
  returns the status string alone, with no result object: no flow table, no open-DC
  list and no objective value.
\<close>

theorem non_optimal_status_only:
  assumes "build_model nodes demand lanes products service_days ssp carbon_price shut_nodes
             = Inr (mdl, vs)"
    and "solver mdl = (st, sol)"
    and "st \<noteq> Optimal"
  shows "solve_and_extract solver nodes demand lanes products service_days ssp carbon_price
           shut_nodes = Inr (LpStatus st, None)
         \<and> LpStatus st \<noteq> ''Optimal''"
  using solve_and_extract_not_optimal[where solver = solver, OF assms] assms(3) by simp

theorem non_optimal_status_only_witness:
  "\<exists>mdl vs. build_model ex_nodes ex_demand ex_lanes ex_products 7 0.1 0 [] = Inr (mdl, vs)
     \<and> ex_infeasible mdl = (Infeasible, \<lambda>v. None)
     \<and> Infeasible \<noteq> Optimal
     \<and> solve_and_extract ex_infeasible ex_nodes ex_demand ex_lanes ex_products 7 0.1 0 []
         = Inr (''Infeasible'', None)"
proof -
  obtain mdl vs where b: "build_model ex_nodes ex_demand ex_lanes ex_products 7 0.1 0 []
      = Inr (mdl, vs)"
    using ex_build_ok by blast
  have s: "ex_infeasible mdl = (Infeasible, \<lambda>v. None)" by (simp add: ex_infeasible_def)
  have n: "Infeasible \<noteq> Optimal" by simp
  from non_optimal_status_only[where solver = ex_infeasible, OF b s n] b s show ?thesis by auto
qed

text \<open>
  C8: in the result of an optimally solved formulation, a flow record (From, To,
  Product, Period, FlowLbs) appears if and only if it is the record of a flow variable
  whose solved value is strictly greater than 1e-6; a flow variable whose value is at
  most 1e-6, or undefined, has no record.
\<close>

theorem flow_record_iff_above_threshold:
  assumes "build_model nodes demand lanes products service_days ssp carbon_price shut_nodes
             = Inr (mdl, vs)"
    and "solver mdl = (st, sol)"
    and "solve_and_extract solver nodes demand lanes products service_days ssp carbon_price
           shut_nodes = Inr (s, Some res)"
  shows "r \<in> set (flow res) \<longleftrightarrow>
     (\<exists>i j p t x. (i, j, p, t) \<in> set (flow_vars vs) \<and> sol (Flow i j p t) = Some x
        \<and> x > 1 / 10 ^ 6
        \<and> r = \<lparr>From = i, To = j, Product = p, FlowPeriod = t, FlowLbs = x\<rparr>)"
proof -
  have st: "st = Optimal"
  proof (rule ccontr)
    assume "st \<noteq> Optimal"
    from solve_and_extract_not_optimal[where solver = solver, OF assms(1,2) this] assms(3) show False by simp
  qed
  have "bindE (open_rows sol (open_vars vs)) (\<lambda>ds.
             Inr (''Optimal'',
                  Some \<lparr>flow = flow_rows sol (flow_vars vs), open_dc = ds,
                        objective_value = value_expr sol (objective mdl)\<rparr>))
          = Inr (s, Some res)"
    using solve_and_extract_optimal[where solver = solver, OF assms(1) assms(2)[unfolded st]]
      assms(3) by simp
  then obtain ds where "res = \<lparr>flow = flow_rows sol (flow_vars vs), open_dc = ds,
                        objective_value = value_expr sol (objective mdl)\<rparr>"
    unfolding bindE_eq_Inr by auto
  then have "flow res = flow_rows sol (flow_vars vs)" by simp
  then show ?thesis by (simp only: set_flow_rows)
qed

theorem flow_record_iff_above_threshold_witness:
  "\<exists>mdl vs res. build_model ex_nodes ex_demand ex_lanes ex_products 7 0.1 0 [''D1'']
        = Inr (mdl, vs)
     \<and> ex_solver mdl = (Optimal, ex_values)
     \<and> solve_and_extract ex_solver ex_nodes ex_demand ex_lanes ex_products 7 0.1 0 [''D1'']
         = Inr (''Optimal'', Some res)
     \<and> \<lparr>From = ''D2'', To = ''C1'', Product = ''W'', FlowPeriod = 1, FlowLbs = 10\<rparr>
           \<in> set (flow res)
     \<and> \<lparr>From = ''D1'', To = ''C1'', Product = ''W'', FlowPeriod = 1, FlowLbs = 0\<rparr>
           \<notin> set (flow res)"
proof -
  obtain mdl vs where b: "build_model ex_nodes ex_demand ex_lanes ex_products 7 0.1 0 [''D1'']
      = Inr (mdl, vs)"
    using ex_build_ok by blast
  have s: "ex_solver mdl = (Optimal, ex_values)" by (simp add: ex_solver_def)
  note vs = ex_build(2,3)[OF b]
  obtain res where r: "solve_and_extract ex_solver ex_nodes ex_demand ex_lanes ex_products
      7 0.1 0 [''D1''] = Inr (''Optimal'', Some res)"
    using solve_and_extract_optimal[where solver = ex_solver, OF b s] by (simp add: vs ex_open_rows)
  note t = flow_record_iff_above_threshold[where solver = ex_solver, OF b s r]
  have "\<lparr>From = ''D2'', To = ''C1'', Product = ''W'', FlowPeriod = 1, FlowLbs = 10\<rparr>
           \<in> set (flow res)"
    unfolding t vs by (simp add: ex_values_def)
  moreover have "\<lparr>From = ''D1'', To = ''C1'', Product = ''W'', FlowPeriod = 1, FlowLbs = 0\<rparr>
           \<notin> set (flow res)"
    unfolding t vs by (simp add: ex_values_def)
  ultimately show ?thesis using b s r by blast
qed

subsection \<open>The open variables\<close>

text \<open>
  C1: in every formulation that \<open>build_model\<close> returns, a variable \<open>open[d]\<close>
  occurs in the objective only in the fixed-cost term of the DC \<open>d\<close>, and in no
  constraint other than the forced-shutdown constraint \<open>open[d] == 0\<close> of a
  forced-closed DC, which mentions no other variable. So for a DC \<open>d\<close> outside the
  forced-closed set, changing the value of \<open>open[d]\<close> changes the truth of no
  constraint: flow through \<open>d\<close> is unconstrained by \<open>open[d]\<close>.
\<close>

theorem open_only_in_fixed_cost_and_shutdown:
  assumes "build_model nodes demand lanes products service_days ssp carbon_price shut_nodes
             = Inr (mdl, vs)"
  shows "(\<forall>c\<in>set (constraints mdl). Open d \<in> constraint_vars c \<longrightarrow>
            d \<in> set shut_nodes \<and> d \<in> set (DC_of nodes) \<and> c = fix_zero (Open d))
       \<and> (\<forall>k. (Open d, k) \<in> set (fst (objective mdl)) \<longleftrightarrow>
            d \<in> set (DC_of nodes) \<and> node_fixed nodes d = Inr k)
       \<and> (d \<notin> set shut_nodes \<longrightarrow>
            (\<forall>c\<in>set (constraints mdl). \<forall>val x. holds (val(Open d := x)) c = holds val c))"
proof (intro conjI)
  show 1: "\<forall>c\<in>set (constraints mdl). Open d \<in> constraint_vars c \<longrightarrow>
            d \<in> set shut_nodes \<and> d \<in> set (DC_of nodes) \<and> c = fix_zero (Open d)"
    using constraint_no_open[OF assms] by blast
  from assms obtain obj where
    "objective_expr nodes (prep_lanes nodes lanes) (PLT_of nodes) (DC_of nodes)
       (P_of products) (T_of demand) carbon_price = Inr obj" "objective mdl = obj"
    by (rule build_model_Inr)
  then show "\<forall>k. (Open d, k) \<in> set (fst (objective mdl)) \<longleftrightarrow>
            d \<in> set (DC_of nodes) \<and> node_fixed nodes d = Inr k"
    using objective_open_terms by blast
  show "d \<notin> set shut_nodes \<longrightarrow>
            (\<forall>c\<in>set (constraints mdl). \<forall>val x. holds (val(Open d := x)) c = holds val c)"
  proof (intro impI ballI allI)
    fix c and val :: "var \<Rightarrow> real" and x
    assume d: "d \<notin> set shut_nodes" and c: "c \<in> set (constraints mdl)"
    from 1 c d have "Open d \<notin> constraint_vars c" by blast
    then have "(val(Open d := x)) v = val v" if "v \<in> constraint_vars c" for v
      using that by auto
    then show "holds (val(Open d := x)) c = holds val c" by (rule holds_cong)
  qed
qed

theorem open_only_in_fixed_cost_and_shutdown_witness:
  "\<exists>mdl vs. build_model ex_nodes ex_demand ex_lanes ex_products 7 0.1 0 [''D1'']
        = Inr (mdl, vs)
     \<and> ''D2'' \<notin> set [''D1'']
     \<and> (\<forall>c\<in>set (constraints mdl). Open ''D2'' \<notin> constraint_vars c)
     \<and> (Open ''D2'', 150) \<in> set (fst (objective mdl))
     \<and> (\<forall>c\<in>set (constraints mdl). \<forall>val x. holds (val(Open ''D2'' := x)) c = holds val c)"
proof -
  obtain mdl vs where b: "build_model ex_nodes ex_demand ex_lanes ex_products 7 0.1 0 [''D1'']
      = Inr (mdl, vs)"
    using ex_build_ok by blast
  note t = open_only_in_fixed_cost_and_shutdown[OF b, of "''D2''"]
  have n: "''D2'' \<notin> set [''D1'']" by simp
  have "''D2'' \<in> set (DC_of ex_nodes)" by (simp add: ex_sets)
  moreover have "node_fixed ex_nodes ''D2'' = Inr 150"
    by (simp add: node_fixed_def nodes_loc_def ex_nodes_def)
  ultimately have f: "''D2'' \<in> set (DC_of ex_nodes) \<and> node_fixed ex_nodes ''D2'' = Inr 150"
    by blast
  from t n have "\<forall>c\<in>set (constraints mdl). Open ''D2'' \<notin> constraint_vars c" by blast
  moreover from t f have "(Open ''D2'', 150) \<in> set (fst (objective mdl))" by blast
  moreover from t n
  have "\<forall>c\<in>set (constraints mdl). \<forall>val x. holds (val(Open ''D2'' := x)) c = holds val c"
    by blast
  ultimately show ?thesis using b n by blast
qed

subsection \<open>Forced shutdown\<close>

text \<open>
  C6 (forced shutdown). For every node \<open>n\<close> of the forced-closed set the model contains
  the constraint \<open>open[n] = 0\<close> when \<open>n\<close> is a DC, and the constraint
  \<open>flow[i, j, p, t] = 0\<close> for every indexed lane with \<open>n\<close> as an endpoint, every product
  and every period. Consequently, whenever the solver's values satisfy the constraints of
  the model, the result has no flow record with \<open>n\<close> as origin or destination, and \<open>n\<close>
  is not among the open DCs.
  A constraint \<open>fix_zero v\<close> holds exactly under the assignments that give \<open>v\<close> the value 0.
\<close>

theorem forced_shutdown_fixes_open_and_flows:
  assumes "build_model nodes demand lanes products service_days ssp carbon_price shut_nodes
             = Inr (mdl, vs)"
    and "n \<in> set shut_nodes"
  shows "(n \<in> set (DC_of nodes) \<longrightarrow> fix_zero (Open n) \<in> set (constraints mdl))
       \<and> (\<forall>i j p t. (i, j) \<in> set (lane_index (prep_lanes nodes lanes)) \<and> (i = n \<or> j = n)
             \<and> p \<in> set (P_of products) \<and> t \<in> set (T_of demand)
            \<longrightarrow> fix_zero (Flow i j p t) \<in> set (constraints mdl))
       \<and> (\<forall>val v. holds val (fix_zero v) \<longleftrightarrow> val v = 0)
       \<and> (\<forall>solver st sol s res.
             solver mdl = (st, sol) \<and> (\<forall>c\<in>set (constraints mdl). satisfies sol c)
             \<and> solve_and_extract solver nodes demand lanes products service_days ssp
                 carbon_price shut_nodes = Inr (s, Some res)
            \<longrightarrow> (\<forall>r\<in>set (flow res). From r \<noteq> n \<and> To r \<noteq> n) \<and> n \<notin> set (open_dc res))"
proof (intro conjI allI impI)
  let ?idx = "lane_index (prep_lanes nodes lanes)"
  let ?sh = "shutdown_constraints (remdups shut_nodes) (DC_of nodes) ?idx (P_of products)
               (T_of demand)"
  have n: "n \<in> set (remdups shut_nodes)" using assms(2) by simp
  have opn: "fix_zero (Open n) \<in> set (constraints mdl)" if "n \<in> set (DC_of nodes)"
  proof -
    have "fix_zero (Open n) \<in> set ?sh" unfolding shutdown_mem using n that by blast
    then show ?thesis by (rule shutdown_in_constraints[OF assms(1)])
  qed
  have flw: "fix_zero (Flow i j p t) \<in> set (constraints mdl)"
    if "(i, j) \<in> set ?idx \<and> (i = n \<or> j = n) \<and> p \<in> set (P_of products) \<and> t \<in> set (T_of demand)"
    for i j p t
  proof -
    have "fix_zero (Flow i j p t) \<in> set ?sh" unfolding shutdown_mem using n that by blast
    then show ?thesis by (rule shutdown_in_constraints[OF assms(1)])
  qed
  show "fix_zero (Open n) \<in> set (constraints mdl)" if "n \<in> set (DC_of nodes)"
    using that by (rule opn)
  show "fix_zero (Flow i j p t) \<in> set (constraints mdl)"
    if "(i, j) \<in> set ?idx \<and> (i = n \<or> j = n) \<and> p \<in> set (P_of products) \<and> t \<in> set (T_of demand)"
    for i j p t
    using that by (rule flw)
  show "holds val (fix_zero v) \<longleftrightarrow> val v = 0" for val v
    by (simp add: fix_zero_def holds_def eval_def num_def var_expr_def)
  fix solver :: solver and st sol s res
  assume a: "solver mdl = (st, sol) \<and> (\<forall>c\<in>set (constraints mdl). satisfies sol c)
             \<and> solve_and_extract solver nodes demand lanes products service_days ssp
                 carbon_price shut_nodes = Inr (s, Some res)"
  then have sv: "solver mdl = (st, sol)"
    and sat: "\<And>c. c \<in> set (constraints mdl) \<Longrightarrow> satisfies sol c"
    and ex: "solve_and_extract solver nodes demand lanes products service_days ssp
                 carbon_price shut_nodes = Inr (s, Some res)"
    by blast+
  note r = solve_and_extract_result[where solver = solver, OF assms(1) sv ex]
  note vars = build_model_vars[OF assms(1)]
  show "\<forall>r\<in>set (flow res). From r \<noteq> n \<and> To r \<noteq> n"
  proof
    fix fr assume "fr \<in> set (flow res)"
    then obtain i j p t x where k: "(i, j, p, t) \<in> set (flow_vars vs)"
      and x: "sol (Flow i j p t) = Some x" "x > 1 / 10 ^ 6"
      and fr: "fr = \<lparr>From = i, To = j, Product = p, FlowPeriod = t, FlowLbs = x\<rparr>"
      unfolding r(2) set_flow_rows by blast
    have "\<not> (i = n \<or> j = n)"
    proof
      assume "i = n \<or> j = n"
      with k have "fix_zero (Flow i j p t) \<in> set (constraints mdl)"
        unfolding vars(1) by (intro flw) simp
      then have "satisfies sol (fix_zero (Flow i j p t))" by (rule sat)
      then have "sol (Flow i j p t) = Some 0" by (simp only: satisfies_fix_zero)
      with x show False by simp
    qed
    with fr show "From fr \<noteq> n \<and> To fr \<noteq> n" by simp
  qed
  show "n \<notin> set (open_dc res)"
  proof
    assume "n \<in> set (open_dc res)"
    then have m: "n \<in> set (open_vars vs)" and "\<exists>x. sol (Open n) = Some x \<and> x > 0.5"
      unfolding set_open_rows[OF r(3)] by blast+
    then obtain x where x: "sol (Open n) = Some x" "x > 0.5" by blast
    from m have "n \<in> set (DC_of nodes)" unfolding vars(2) .
    then have "satisfies sol (fix_zero (Open n))" by (intro sat opn)
    then have "sol (Open n) = Some 0" by (simp only: satisfies_fix_zero)
    with x show False by simp
  qed
qed

theorem forced_shutdown_fixes_open_and_flows_witness:
  "\<exists>mdl vs res. build_model ex_nodes ex_demand ex_lanes ex_products 7 0.1 0 [''D1'']
        = Inr (mdl, vs)
     \<and> ''D1'' \<in> set [''D1''] \<and> ''D1'' \<in> set (DC_of ex_nodes)
     \<and> (''P1'', ''D1'') \<in> set (lane_index (prep_lanes ex_nodes ex_lanes))
     \<and> ''W'' \<in> set (P_of ex_products) \<and> 1 \<in> set (T_of ex_demand)
     \<and> ex_solver mdl = (Optimal, ex_values)
     \<and> (\<forall>c\<in>set (constraints mdl). satisfies ex_values c)
     \<and> solve_and_extract ex_solver ex_nodes ex_demand ex_lanes ex_products 7 0.1 0 [''D1'']
         = Inr (''Optimal'', Some res)
     \<and> fix_zero (Open ''D1'') \<in> set (constraints mdl)
     \<and> fix_zero (Flow ''P1'' ''D1'' ''W'' 1) \<in> set (constraints mdl)
     \<and> (\<forall>r\<in>set (flow res). From r \<noteq> ''D1'' \<and> To r \<noteq> ''D1'')
     \<and> ''D1'' \<notin> set (open_dc res)"
proof -
  obtain mdl vs where b: "build_model ex_nodes ex_demand ex_lanes ex_products 7 0.1 0 [''D1'']
      = Inr (mdl, vs)"
    using ex_build_ok by blast
  have s: "ex_solver mdl = (Optimal, ex_values)" by (simp add: ex_solver_def)
  note vs = ex_build(2,3)[OF b]
  obtain res where r: "solve_and_extract ex_solver ex_nodes ex_demand ex_lanes ex_products
      7 0.1 0 [''D1''] = Inr (''Optimal'', Some res)"
    using solve_and_extract_optimal[where solver = ex_solver, OF b s] by (simp add: vs ex_open_rows)
  have n: "''D1'' \<in> set [''D1'']" by simp
  have d: "''D1'' \<in> set (DC_of ex_nodes)" by (simp add: ex_sets)
  have l: "(''P1'', ''D1'') \<in> set (lane_index (prep_lanes ex_nodes ex_lanes))
      \<and> (''P1'' = ''D1'' \<or> ''D1'' = ''D1'')
      \<and> ''W'' \<in> set (P_of ex_products) \<and> 1 \<in> set (T_of ex_demand)"
    by (simp add: ex_index ex_sets)
  have sat: "\<forall>c\<in>set (constraints mdl). satisfies ex_values c"
    using ex_satisfies[OF b] by blast
  note t = forced_shutdown_fixes_open_and_flows[OF b n]
  from t d have 1: "fix_zero (Open ''D1'') \<in> set (constraints mdl)" by blast
  from t l have 2: "fix_zero (Flow ''P1'' ''D1'' ''W'' 1) \<in> set (constraints mdl)" by blast
  have "solver mdl = (st, sol) \<and> (\<forall>c\<in>set (constraints mdl). satisfies sol c)
      \<and> solve_and_extract solver ex_nodes ex_demand ex_lanes ex_products 7 0.1 0 [''D1'']
          = Inr (s, Some res')
     \<longrightarrow> (\<forall>r\<in>set (flow res'). From r \<noteq> ''D1'' \<and> To r \<noteq> ''D1'') \<and> ''D1'' \<notin> set (open_dc res')"
    for solver st sol s res'
    using t by (elim conjE allE)
  from this[of ex_solver Optimal ex_values "''Optimal''" res] s sat r
  have 3: "(\<forall>r\<in>set (flow res). From r \<noteq> ''D1'' \<and> To r \<noteq> ''D1'')
      \<and> ''D1'' \<notin> set (open_dc res)" by (elim impE conjI) 
  from b n d l s sat r 1 2 3 show ?thesis by blast
qed

subsection \<open>Mass balance\<close>



subsection \<open>Capacity\<close>

text \<open>
  C5 (capacity). The claim asks for the constraint "inbound flow at most the capacity" at
  every plant or DC with a defined capacity, a capacity of zero included. The code tests
  \<open>if cap:\<close>, which is false for a capacity of zero: in the small network \<open>D1\<close> is a DC
  with \<open>Cap_Lbs_Per_Period = 0\<close>, \<open>build_model\<close> succeeds, the capacity constraint of
  \<open>D1\<close> is not among the constraints, and the assignment that sends 10 lbs into \<open>D1\<close>
  satisfies every constraint of the formulation although it violates that one.
\<close>

theorem zero_capacity_not_enforced:
  "\<exists>mdl vs. build_model ex_nodes ex_demand ex_lanes ex_products 7 0.1 0 [] = Inr (mdl, vs)
     \<and> ''D1'' \<in> set (DC_of ex_nodes)
     \<and> node_cap ex_nodes ''D1'' = Inr (Some 0)
     \<and> capacity_constraint (node_ids ex_nodes) (lane_index (prep_lanes ex_nodes ex_lanes))
           (P_of ex_products) ''D1'' 1 0 \<notin> set (constraints mdl)
     \<and> list_all (holds ex_through_D1) (constraints mdl)
     \<and> \<not> holds ex_through_D1
           (capacity_constraint (node_ids ex_nodes) (lane_index (prep_lanes ex_nodes ex_lanes))
              (P_of ex_products) ''D1'' 1 0)"
proof -
  obtain mdl vs where b: "build_model ex_nodes ex_demand ex_lanes ex_products 7 0.1 0 []
      = Inr (mdl, vs)"
    using ex_build_ok by blast
  have cs: "constraints mdl =
      [\<lparr>lhs = lpSum [var_expr (Flow ''S1'' ''P1'' ''W'' 1)], sense = LE, rhs = num 500\<rparr>,
       \<lparr>lhs = lpSum [var_expr (Flow ''P1'' ''D2'' ''W'' 1)], sense = LE, rhs = num 50\<rparr>,
       \<lparr>lhs = lpSum [var_expr (Flow ''D1'' ''C1'' ''W'' 1), var_expr (Flow ''D2'' ''C1'' ''W'' 1)],
         sense = GE, rhs = num 10\<rparr>,
       \<lparr>lhs = lpSum [times (var_expr (Flow ''D1'' ''C1'' ''W'' 1)) 2,
                      times (var_expr (Flow ''D2'' ''C1'' ''W'' 1)) 2],
         sense = LE, rhs = num (10 * 7)\<rparr>,
       \<lparr>lhs = plus_expr (lpSum [var_expr (Flow ''P1'' ''D1'' ''W'' 1)]) (num 0), sense = EQ,
         rhs = plus_expr (lpSum [var_expr (Flow ''D1'' ''C1'' ''W'' 1)])
                 (var_expr (Inv ''D1'' ''W'' 1))\<rparr>,
       \<lparr>lhs = plus_expr (lpSum [var_expr (Flow ''P1'' ''D2'' ''W'' 1)]) (num 0), sense = EQ,
         rhs = plus_expr (lpSum [var_expr (Flow ''D2'' ''C1'' ''W'' 1)])
                 (var_expr (Inv ''D2'' ''W'' 1))\<rparr>,
       \<lparr>lhs = plus_expr (lpSum [var_expr (Flow ''S1'' ''P1'' ''W'' 1)]) (num 0), sense = EQ,
         rhs = plus_expr (plus_expr (lpSum [var_expr (Flow ''P1'' ''D1'' ''W'' 1),
                                            var_expr (Flow ''P1'' ''D2'' ''W'' 1)])
                            (var_expr (Make ''P1'' ''W'' 1)))
                 (var_expr (Inv ''P1'' ''W'' 1))\<rparr>]"
    unfolding ex_build(1)[OF b] ex_mass by (simp add: shutdown_constraints_def)
  have cc: "capacity_constraint (node_ids ex_nodes) (lane_index (prep_lanes ex_nodes ex_lanes))
           (P_of ex_products) ''D1'' 1 0
      = \<lparr>lhs = lpSum [var_expr (Flow ''P1'' ''D1'' ''W'' 1)], sense = LE, rhs = num 0\<rparr>"
    by (simp add: capacity_constraint_def ex_node_ids ex_index ex_sets ex_inbound)
  have d: "''D1'' \<in> set (DC_of ex_nodes)" by (simp add: ex_sets)
  have 1: "capacity_constraint (node_ids ex_nodes) (lane_index (prep_lanes ex_nodes ex_lanes))
           (P_of ex_products) ''D1'' 1 0 \<notin> set (constraints mdl)"
    unfolding cc cs by (simp add: num_def)
  have 2: "list_all (holds ex_through_D1) (constraints mdl)"
    unfolding cs
    by (simp add: holds_def eval_def lpSum_def var_expr_def times_def plus_expr_def num_def
          ex_through_D1_def)
  have 3: "\<not> holds ex_through_D1
           (capacity_constraint (node_ids ex_nodes) (lane_index (prep_lanes ex_nodes ex_lanes))
              (P_of ex_products) ''D1'' 1 0)"
    unfolding cc
    by (simp add: holds_def eval_def lpSum_def var_expr_def num_def ex_through_D1_def)
  from b d ex_node_cap(2) 1 2 3 show ?thesis by blast
qed

subsection \<open>Validation of the scenario\<close>




end
